theory Spec2Isabelle
  imports Main "HOL-Library.AList" "HOL-Library.Multiset"
begin

section \<open>Values, cards and the data store\<close>

text \<open>
  The cards of \<^verbatim>\<open>app.js\<close> are plain JavaScript objects: \<^verbatim>\<open>createCard\<close> and
  \<^verbatim>\<open>updateCard\<close> spread whatever fields the caller passes, and \<^verbatim>\<open>importCards\<close> copies
  whatever \<^verbatim>\<open>JSON.parse\<close> returned. A card is therefore an association list from property
  names to JSON values; a property that is missing reads as \<^verbatim>\<open>undefined\<close>, which is \<open>None\<close>
  here. Reading a property is \<open>map_of\<close>, assigning one is \<open>AList.update\<close> (in place when
  the key exists, appended otherwise, as in JavaScript).

  A number is identified by its canonical rendering \<^verbatim>\<open>String(n)\<close>, so that no floating
  point is needed: only its truthiness and its use as a property key are ever observed.
  Strings are lists of characters, each standing for one UTF-16 code unit (Isabelle's
  characters give the code units below 256). Ids passed to the repository's methods are
  strings, as every caller in \<^verbatim>\<open>app.js\<close> passes them.
\<close>

datatype jsval =
    JNull
  | JBool bool
  | JNum string
  | JStr string
  | JArr "jsval list"
  | JObj "(string \<times> jsval) list"
  | JInherited string

text \<open>
  \<open>JInherited k\<close> is the value every plain object inherits from \<^verbatim>\<open>Object.prototype\<close> under
  the name \<open>k\<close>: a builtin function, and \<^verbatim>\<open>Object.prototype\<close> itself for \<^verbatim>\<open>__proto__\<close>. Such a
  value gets into a card only through \<^verbatim>\<open>importCards\<close>, which looks names taken from the file
  up in its id mapping, a plain object.
\<close>

definition object_prototype_names :: "string list" where
  "object_prototype_names =
     [''constructor'', ''__defineGetter__'', ''__defineSetter__'', ''hasOwnProperty'',
      ''__lookupGetter__'', ''__lookupSetter__'', ''isPrototypeOf'', ''propertyIsEnumerable'',
      ''toString'', ''valueOf'', ''__proto__'', ''toLocaleString'']"

type_synonym card = "(string \<times> jsval) list"

text \<open>The exceptions the modelled code can raise, and the toasts it shows.\<close>

datatype js_error = TypeError | SyntaxError | InvalidFormat

datatype toast =
    NoCardsToExport
  | CardsExported nat
  | CardsImported nat
  | ImportInvalidFile
  | FileReadError

text \<open>\<^verbatim>\<open>class DataStore\<close>: the constructor's two fields.\<close>

record datastore =
  cards :: "card list"
  navigationHistory :: "string list"

definition new_DataStore :: datastore where
  "new_DataStore = \<lparr>cards = [], navigationHistory = []\<rparr>"

text \<open>JavaScript truthiness of a value read from a property (\<open>None\<close> is \<^verbatim>\<open>undefined\<close>).\<close>

fun truthy :: "jsval option \<Rightarrow> bool" where
  "truthy None = False"
| "truthy (Some JNull) = False"
| "truthy (Some (JBool b)) = b"
| "truthy (Some (JNum r)) = (r \<noteq> ''0'' \<and> r \<noteq> ''NaN'')"
| "truthy (Some (JStr s)) = (s \<noteq> [])"
| "truthy (Some (JArr xs)) = True"
| "truthy (Some (JObj kvs)) = True"
| "truthy (Some (JInherited k)) = True"

text \<open>\<^verbatim>\<open>Array.prototype.findIndex\<close>; \<open>None\<close> stands for the result \<^verbatim>\<open>-1\<close>.\<close>

fun findIndex :: "('a \<Rightarrow> bool) \<Rightarrow> 'a list \<Rightarrow> nat option" where
  "findIndex P [] = None"
| "findIndex P (x # xs) =
     (if P x then Some 0 else map_option Suc (findIndex P xs))"

text \<open>The test \<^verbatim>\<open>c.id === id\<close> for an id that is a string.\<close>

definition has_id :: "string \<Rightarrow> card \<Rightarrow> bool" where
  "has_id i c = (map_of c ''id'' = Some (JStr i))"

subsection \<open>Identifiers\<close>

text \<open>Decimal rendering of a natural number, as string concatenation does it.\<close>

fun dec :: "nat \<Rightarrow> string" where
  "dec n = (if n < 10 then [''0123456789'' ! n]
            else dec (n div 10) @ [''0123456789'' ! (n mod 10)])"

declare dec.simps [simp del]

text \<open>
  \<^verbatim>\<open>generateId\<close> reads the clock and the random generator. Both are inputs of the model:
  \<open>now\<close> is \<^verbatim>\<open>Date.now()\<close> and \<open>suffix\<close> is
  \<^verbatim>\<open>Math.random().toString(36).substr(2, 9)\<close>.
\<close>

definition generateId :: "nat \<Rightarrow> string \<Rightarrow> string" where
  "generateId now suffix = ''card_'' @ dec now @ ''_'' @ suffix"

subsection \<open>Repository operations\<close>

text \<open>
  Object spread, \<^verbatim>\<open>{...target, ...src}\<close>: the properties of \<open>src\<close> are assigned in
  order onto a copy of \<open>target\<close>, each replacing the property of the same name or being
  appended.
\<close>

definition spread :: "card \<Rightarrow> card \<Rightarrow> card" where
  "spread target src = fold (\<lambda>(k, v). AList.update k v) src target"

text \<open>
  \<^verbatim>\<open>createCard\<close>: the object literal lists \<^verbatim>\<open>id\<close>, \<^verbatim>\<open>createdAt\<close>, \<^verbatim>\<open>updatedAt\<close> and then
  spreads \<^verbatim>\<open>cardData\<close> over them. The two timestamps come from two separate
  \<^verbatim>\<open>new Date()\<close> calls, \<open>t1\<close> and \<open>t2\<close>.
\<close>

definition createCard ::
  "nat \<Rightarrow> string \<Rightarrow> string \<Rightarrow> string \<Rightarrow> card \<Rightarrow> datastore \<Rightarrow> card \<times> datastore" where
  "createCard now suffix t1 t2 cardData s =
     (let newCard = spread
            [(''id'', JStr (generateId now suffix)),
             (''createdAt'', JStr t1),
             (''updatedAt'', JStr t2)] cardData
      in (newCard, s\<lparr>cards := cards s @ [newCard]\<rparr>))"

text \<open>\<^verbatim>\<open>updateCard\<close>; \<open>None\<close> is the \<^verbatim>\<open>null\<close> returned when no card has the id.\<close>

definition updateCard ::
  "string \<Rightarrow> string \<Rightarrow> card \<Rightarrow> datastore \<Rightarrow> card option \<times> datastore" where
  "updateCard i now cardData s =
     (case findIndex (has_id i) (cards s) of
        Some index \<Rightarrow>
          (let merged = AList.update ''updatedAt'' (JStr now)
                          (spread (cards s ! index) cardData)
           in (Some merged, s\<lparr>cards := (cards s)[index := merged]\<rparr>))
      | None \<Rightarrow> (None, s))"

text \<open>
  One guarded statement of \<^verbatim>\<open>deleteCard\<close>'s loop body:
  \<^verbatim>\<open>if (card.f) { card.f = card.f.filter(x => x !== id); }\<close>.
  A truthy value that is not an array has no \<^verbatim>\<open>filter\<close> method, which raises a TypeError.
  The card is returned as it stands when the statement ends or throws.
\<close>

definition strip_ref :: "string \<Rightarrow> string \<Rightarrow> card \<Rightarrow> js_error option \<times> card" where
  "strip_ref f i c =
     (if truthy (map_of c f) then
        (case map_of c f of
           Some (JArr xs) \<Rightarrow>
             (None, AList.update f (JArr (filter (\<lambda>x. x \<noteq> JStr i) xs)) c)
         | _ \<Rightarrow> (Some TypeError, c))
      else (None, c))"

definition strip_card :: "string \<Rightarrow> card \<Rightarrow> js_error option \<times> card" where
  "strip_card i c =
     (case strip_ref ''adjacentLocations'' i c of
        (Some e, c1) \<Rightarrow> (Some e, c1)
      | (None, c1) \<Rightarrow>
          (case strip_ref ''presentCharacters'' i c1 of
             (Some e, c2) \<Rightarrow> (Some e, c2)
           | (None, c2) \<Rightarrow> strip_ref ''bonds'' i c2))"

text \<open>The \<^verbatim>\<open>forEach\<close> of \<^verbatim>\<open>deleteCard\<close>; it stops at the first exception.\<close>

fun strip_all :: "string \<Rightarrow> card list \<Rightarrow> js_error option \<times> card list" where
  "strip_all i [] = (None, [])"
| "strip_all i (c # cs) =
     (case strip_card i c of
        (Some e, c') \<Rightarrow> (Some e, c' # cs)
      | (None, c') \<Rightarrow>
          (case strip_all i cs of (e, cs') \<Rightarrow> (e, c' # cs')))"

definition deleteCard :: "string \<Rightarrow> datastore \<Rightarrow> (js_error + bool) \<times> datastore" where
  "deleteCard i s =
     (case findIndex (has_id i) (cards s) of
        Some index \<Rightarrow>
          (case strip_all i (cards s) of
             (Some e, cs) \<Rightarrow> (Inl e, s\<lparr>cards := cs\<rparr>)
           | (None, cs) \<Rightarrow>
               (Inr True, s\<lparr>cards := take index cs @ drop (Suc index) cs\<rparr>))
      | None \<Rightarrow> (Inr False, s))"

definition getCard :: "string \<Rightarrow> datastore \<Rightarrow> card option" where
  "getCard i s = List.find (has_id i) (cards s)"

definition getCardsByType :: "jsval \<Rightarrow> datastore \<Rightarrow> card list" where
  "getCardsByType t s = filter (\<lambda>c. map_of c ''type'' = Some t) (cards s)"

definition getAllCards :: "datastore \<Rightarrow> card list" where
  "getAllCards s = cards s"

subsection \<open>Search\<close>

text \<open>
  \<^verbatim>\<open>String.prototype.toLowerCase\<close> is a builtin of the runtime that follows the Unicode case
  mappings. It is an input of the model, the parameter \<open>toLowerCase\<close> of \<open>search_match\<close> and
  \<open>searchCards\<close>, so that nothing is assumed about it beyond what a statement says.
  \<^verbatim>\<open>String.prototype.includes\<close> is the test for a contiguous occurrence.
\<close>

fun starts_with :: "string \<Rightarrow> string \<Rightarrow> bool" where
  "starts_with s [] = True"
| "starts_with [] (q # qs) = False"
| "starts_with (c # cs) (q # qs) = (c = q \<and> starts_with cs qs)"

fun str_includes :: "string \<Rightarrow> string \<Rightarrow> bool" where
  "str_includes [] q = (q = [])"
| "str_includes (c # cs) q = (starts_with (c # cs) q \<or> str_includes cs q)"

text \<open>
  The predicate passed to \<^verbatim>\<open>filter\<close> in \<^verbatim>\<open>searchCards\<close>. \<^verbatim>\<open>card.name.toLowerCase()\<close> is
  evaluated first and without a guard: it raises a TypeError unless the name is a string.
  The description is read only when the name does not match, and lowered only when truthy.
\<close>

definition search_match :: "(string \<Rightarrow> string) \<Rightarrow> string \<Rightarrow> card \<Rightarrow> js_error + bool" where
  "search_match toLowerCase lowerQuery c =
     (case map_of c ''name'' of
        Some (JStr n) \<Rightarrow>
          (if str_includes (toLowerCase n) lowerQuery then Inr True
           else if truthy (map_of c ''description'') then
             (case map_of c ''description'' of
                Some (JStr d) \<Rightarrow> Inr (str_includes (toLowerCase d) lowerQuery)
              | _ \<Rightarrow> Inl TypeError)
           else Inr False)
      | _ \<Rightarrow> Inl TypeError)"

text \<open>\<^verbatim>\<open>Array.prototype.filter\<close> with a callback that may throw.\<close>

fun filterE :: "('a \<Rightarrow> js_error + bool) \<Rightarrow> 'a list \<Rightarrow> js_error + 'a list" where
  "filterE p [] = Inr []"
| "filterE p (x # xs) =
     (case p x of
        Inl e \<Rightarrow> Inl e
      | Inr b \<Rightarrow>
          (case filterE p xs of
             Inl e \<Rightarrow> Inl e
           | Inr ys \<Rightarrow> Inr (if b then x # ys else ys)))"

definition searchCards ::
  "(string \<Rightarrow> string) \<Rightarrow> string \<Rightarrow> datastore \<Rightarrow> js_error + card list" where
  "searchCards toLowerCase query s =
     filterE (search_match toLowerCase (toLowerCase query)) (cards s)"

subsection \<open>Navigation history\<close>

definition pushToHistory :: "string \<Rightarrow> datastore \<Rightarrow> datastore" where
  "pushToHistory cardId s =
     (let h = navigationHistory s @ [cardId]
      in s\<lparr>navigationHistory := (if length h > 20 then tl h else h)\<rparr>)"

definition getLastFromHistory :: "datastore \<Rightarrow> string option \<times> datastore" where
  "getLastFromHistory s =
     (if navigationHistory s = [] then (None, s)
      else (Some (last (navigationHistory s)),
            s\<lparr>navigationHistory := butlast (navigationHistory s)\<rparr>))"

section \<open>Conversion to strings and property keys\<close>

text \<open>
  \<^verbatim>\<open>ToString\<close>, which also turns a value into a property key (\<^verbatim>\<open>idMapping[oldId]\<close>,
  \<^verbatim>\<open>typeOrder[a.type]\<close>): \<^verbatim>\<open>undefined\<close> gives \<^verbatim>\<open>"undefined"\<close>, an array is joined with commas
  (\<^verbatim>\<open>null\<close> entries as the empty string), an object gives \<^verbatim>\<open>"[object Object]"\<close> through the
  \<^verbatim>\<open>toString\<close> it inherits. An object with an own property \<^verbatim>\<open>toString\<close> has data in the
  place of that method (nothing read from a file can be called), and the conversion
  raises a TypeError. A builtin function gives its source text, written here as V8 prints
  it.
\<close>

fun join_comma :: "string list \<Rightarrow> string" where
  "join_comma [] = []"
| "join_comma [x] = x"
| "join_comma (x # y # zs) = x @ '','' @ join_comma (y # zs)"

fun to_string :: "jsval \<Rightarrow> js_error + string"
  and join_strings :: "jsval list \<Rightarrow> js_error + string list" where
  "to_string JNull = Inr ''null''"
| "to_string (JBool b) = Inr (if b then ''true'' else ''false'')"
| "to_string (JNum r) = Inr r"
| "to_string (JStr s) = Inr s"
| "to_string (JArr xs) =
     (case join_strings xs of Inl e \<Rightarrow> Inl e | Inr ss \<Rightarrow> Inr (join_comma ss))"
| "to_string (JObj kvs) =
     (case map_of kvs ''toString'' of
        None \<Rightarrow> Inr ''[object Object]''
      | Some v \<Rightarrow> Inl TypeError)"
| "to_string (JInherited k) =
     Inr (if k = ''__proto__'' then ''[object Object]''
          else if k = ''constructor'' then ''function Object() { [native code] }''
          else ''function '' @ k @ ''() { [native code] }'')"
| "join_strings [] = Inr []"
| "join_strings (x # xs) =
     (case (if x = JNull then Inr [] else to_string x) of
        Inl e \<Rightarrow> Inl e
      | Inr s \<Rightarrow>
          (case join_strings xs of Inl e \<Rightarrow> Inl e | Inr ss \<Rightarrow> Inr (s # ss)))"

definition property_key :: "jsval option \<Rightarrow> js_error + string" where
  "property_key v = (case v of None \<Rightarrow> Inr ''undefined'' | Some x \<Rightarrow> to_string x)"

section \<open>Export\<close>

text \<open>
  What \<^verbatim>\<open>JSON.parse\<close> reads back from the text \<^verbatim>\<open>JSON.stringify\<close> writes for a value: the
  numbers \<^verbatim>\<open>NaN\<close>, \<^verbatim>\<open>Infinity\<close> and \<^verbatim>\<open>-Infinity\<close> are written as \<^verbatim>\<open>null\<close>; a function is
  written as \<^verbatim>\<open>null\<close> in an array and its property is left out of an object;
  \<^verbatim>\<open>Object.prototype\<close> has no enumerable property and is written as \<^verbatim>\<open>{}\<close>.
\<close>

fun is_function :: "jsval \<Rightarrow> bool" where
  "is_function (JInherited k) = (k \<noteq> ''__proto__'')"
| "is_function v = False"

fun json :: "jsval \<Rightarrow> jsval"
  and json_elems :: "jsval list \<Rightarrow> jsval list"
  and json_props :: "(string \<times> jsval) list \<Rightarrow> (string \<times> jsval) list" where
  "json JNull = JNull"
| "json (JBool b) = JBool b"
| "json (JNum r) = (if r = ''NaN'' \<or> r = ''Infinity'' \<or> r = ''-Infinity'' then JNull else JNum r)"
| "json (JStr s) = JStr s"
| "json (JArr xs) = JArr (json_elems xs)"
| "json (JObj kvs) = JObj (json_props kvs)"
| "json (JInherited k) = (if k = ''__proto__'' then JObj [] else JNull)"
| "json_elems [] = []"
| "json_elems (x # xs) = json x # json_elems xs"
| "json_props [] = []"
| "json_props (kv # kvs) =
     (if is_function (snd kv) then json_props kvs
      else (fst kv, json (snd kv)) # json_props kvs)"

text \<open>
  \<^verbatim>\<open>exportCards\<close> builds the document and hands its JSON text to the browser as a download;
  with no card it only shows an error toast. The model returns the document as
  \<^verbatim>\<open>JSON.parse\<close> reads it from the downloaded text (\<open>None\<close> when nothing is exported) and the
  toast. \<open>exportDate\<close> is the clock reading \<^verbatim>\<open>new Date().toISOString()\<close>.
\<close>

definition exportCards :: "string \<Rightarrow> datastore \<Rightarrow> jsval option \<times> toast list" where
  "exportCards exportDate s =
     (let cs = getAllCards s
      in if length cs = 0 then (None, [NoCardsToExport])
         else (Some (json (JObj [(''version'', JStr ''1.0''),
                                 (''exportDate'', JStr exportDate),
                                 (''cards'', JArr (map JObj cs))])),
               [CardsExported (length cs)]))"

section \<open>The list of cards on the page\<close>

text \<open>
  What an import needs of the page and of the runtime. \<open>currentFilter\<close> is the field of
  \<^verbatim>\<open>UIController\<close> (\<^verbatim>\<open>'all'\<close> until a filter button is pressed). \<open>array_sort\<close> is the
  engine's \<^verbatim>\<open>Array.prototype.sort\<close>: given the comparator and the array's elements it
  returns the exception that came out of it, if any, and the elements as it leaves them.
  \<open>localeCompare\<close> is \<^verbatim>\<open>String.prototype.localeCompare\<close>. \<open>list_markup\<close> and
  \<open>carousel_markup\<close> stand for building the markup of the list (the part of
  \<^verbatim>\<open>renderCardsList\<close> after the sort) and of the carousels (\<^verbatim>\<open>renderCarousels\<close>) and writing
  it to the page: they read the cards, change nothing in the store, and return the
  exception raised when a printed field has no conversion to a string or a number.
\<close>

record ui_context =
  currentFilter :: string
  array_sort :: "(card \<Rightarrow> card \<Rightarrow> js_error + int) \<Rightarrow> card list \<Rightarrow> js_error option \<times> card list"
  localeCompare :: "string \<Rightarrow> string \<Rightarrow> int"
  list_markup :: "card list \<Rightarrow> js_error option"
  carousel_markup :: "card list \<Rightarrow> js_error option"

text \<open>
  \<^verbatim>\<open>typeOrder[c.type] || 99\<close> with \<^verbatim>\<open>typeOrder = { 'evento': 0, 'local': 1, 'personagem': 2 }\<close>:
  the entry 0 of \<^verbatim>\<open>evento\<close> is falsy and gives 99 like an unknown type. A name inherited
  from \<^verbatim>\<open>Object.prototype\<close> gives a function or an object, which is \<^verbatim>\<open>NaN\<close> in the
  subtraction: \<open>None\<close> here.
\<close>

definition type_rank :: "card \<Rightarrow> js_error + int option" where
  "type_rank c =
     (case property_key (map_of c ''type'') of
        Inl e \<Rightarrow> Inl e
      | Inr k \<Rightarrow>
          Inr (if k = ''local'' then Some 1
               else if k = ''personagem'' then Some 2
               else if k \<in> set object_prototype_names then None
               else Some 99))"

text \<open>
  The comparator of \<^verbatim>\<open>renderCardsList\<close>, as the sort reads its result (a \<^verbatim>\<open>NaN\<close> counts as
  0). The names are compared only when the ranks are numbers and equal;
  \<^verbatim>\<open>a.name.localeCompare\<close> raises a TypeError unless \<^verbatim>\<open>a.name\<close> is a string, and \<^verbatim>\<open>b.name\<close>
  is converted to a string.
\<close>

definition compare_cards :: "(string \<Rightarrow> string \<Rightarrow> int) \<Rightarrow> card \<Rightarrow> card \<Rightarrow> js_error + int" where
  "compare_cards lc a b =
     (case type_rank a of
        Inl e \<Rightarrow> Inl e
      | Inr ra \<Rightarrow>
          (case type_rank b of
             Inl e \<Rightarrow> Inl e
           | Inr rb \<Rightarrow>
               (case (ra, rb) of
                  (Some x, Some y) \<Rightarrow>
                    if x - y \<noteq> 0 then Inr (x - y)
                    else (case map_of a ''name'' of
                            Some (JStr n) \<Rightarrow>
                              (case property_key (map_of b ''name'') of
                                 Inl e \<Rightarrow> Inl e
                               | Inr m \<Rightarrow> Inr (lc n m))
                          | _ \<Rightarrow> Inl TypeError)
                | _ \<Rightarrow> Inr 0)))"

text \<open>
  \<^verbatim>\<open>renderCardsList()\<close>: without an argument the list is \<^verbatim>\<open>dataStore.getAllCards()\<close>, the
  live array, which the sort reorders in place when no filter is set; with a filter the
  sort works on the copy \<^verbatim>\<open>filter\<close> made. The markup is built from the sorted list.
\<close>

definition renderCardsList :: "ui_context \<Rightarrow> datastore \<Rightarrow> js_error option \<times> datastore" where
  "renderCardsList ui s =
     (if currentFilter ui = ''all'' then
        (case array_sort ui (compare_cards (localeCompare ui)) (getAllCards s) of
           (Some e, cs) \<Rightarrow> (Some e, s\<lparr>cards := cs\<rparr>)
         | (None, cs) \<Rightarrow> (list_markup ui cs, s\<lparr>cards := cs\<rparr>))
      else
        (case array_sort ui (compare_cards (localeCompare ui))
                (filter (\<lambda>c. map_of c ''type'' = Some (JStr (currentFilter ui))) (getAllCards s)) of
           (Some e, cs) \<Rightarrow> (Some e, s)
         | (None, cs) \<Rightarrow> (list_markup ui cs, s)))"

text \<open>
  \<^verbatim>\<open>renderCarousels()\<close>, and \<^verbatim>\<open>updateWelcomeScreen()\<close>, which renders the carousels once
  more when there is a card.
\<close>

definition renderCarousels :: "ui_context \<Rightarrow> datastore \<Rightarrow> js_error option" where
  "renderCarousels ui s = carousel_markup ui (cards s)"

definition updateWelcomeScreen :: "ui_context \<Rightarrow> datastore \<Rightarrow> js_error option" where
  "updateWelcomeScreen ui s =
     (if length (getAllCards s) > 0 then renderCarousels ui s else None)"

section \<open>Import\<close>

text \<open>
  Reading the property \<^verbatim>\<open>cards\<close> or \<^verbatim>\<open>id\<close> of a parsed value: a TypeError on \<^verbatim>\<open>null\<close>,
  the property of an object, \<^verbatim>\<open>undefined\<close> on everything else (strings, numbers, booleans,
  arrays and functions have neither property).
\<close>

definition read_prop :: "jsval \<Rightarrow> string \<Rightarrow> js_error + jsval option" where
  "read_prop v k =
     (case v of
        JNull \<Rightarrow> Inl TypeError
      | JObj kvs \<Rightarrow> Inr (map_of kvs k)
      | _ \<Rightarrow> Inr None)"

text \<open>
  The shallow copy \<^verbatim>\<open>{ ...card }\<close>: the own enumerable properties of the value. An array
  and a string contribute their elements under the indices; everything else nothing.
\<close>

definition own_props :: "jsval \<Rightarrow> card" where
  "own_props v =
     (case v of
        JObj kvs \<Rightarrow> kvs
      | JArr xs \<Rightarrow> zip (map dec [0..<length xs]) xs
      | JStr s \<Rightarrow> zip (map dec [0..<length s]) (map (\<lambda>c. JStr [c]) s)
      | _ \<Rightarrow> [])"

text \<open>
  The k-th call of \<^verbatim>\<open>generateId\<close> during an import reads the clock and the random
  generator: \<open>gen k\<close> is that pair of readings.
\<close>

definition nth_id :: "(nat \<Rightarrow> nat \<times> string) \<Rightarrow> nat \<Rightarrow> string" where
  "nth_id gen k = generateId (fst (gen k)) (snd (gen k))"

text \<open>
  \<^verbatim>\<open>idMapping\<close> is the plain object \<^verbatim>\<open>{}\<close>; its own properties are an association list
  from keys to new ids. Assigning a string under the key \<^verbatim>\<open>__proto__\<close> runs the setter
  inherited from \<^verbatim>\<open>Object.prototype\<close>, which ignores a value that is not an object: nothing
  is stored. Reading a key that is no own property finds what \<^verbatim>\<open>Object.prototype\<close> has
  under that name, if anything.
\<close>

definition set_mapping :: "string \<Rightarrow> string \<Rightarrow> (string \<times> string) list \<Rightarrow> (string \<times> string) list" where
  "set_mapping key newId idMapping =
     (if key = ''__proto__'' then idMapping else AList.update key newId idMapping)"

definition get_mapping :: "(string \<times> string) list \<Rightarrow> string \<Rightarrow> jsval option" where
  "get_mapping idMapping key =
     (case map_of idMapping key of
        Some newId \<Rightarrow> Some (JStr newId)
      | None \<Rightarrow> if key \<in> set object_prototype_names then Some (JInherited key) else None)"

text \<open>
  First pass: \<^verbatim>\<open>idMapping[card.id] = dataStore.generateId()\<close> for every incoming card, in
  order. \<open>k\<close> counts the calls of \<^verbatim>\<open>generateId\<close>.
\<close>

fun first_pass ::
  "(nat \<Rightarrow> nat \<times> string) \<Rightarrow> nat \<Rightarrow> jsval list \<Rightarrow> (string \<times> string) list
     \<Rightarrow> js_error + (string \<times> string) list" where
  "first_pass gen k [] idMapping = Inr idMapping"
| "first_pass gen k (c # rest) idMapping =
     (case read_prop c ''id'' of
        Inl e \<Rightarrow> Inl e
      | Inr oldId \<Rightarrow>
          (case property_key oldId of
             Inl e \<Rightarrow> Inl e
           | Inr key \<Rightarrow>
               first_pass gen (Suc k) rest (set_mapping key (nth_id gen k) idMapping)))"

text \<open>\<^verbatim>\<open>idMapping[id] || id\<close> for one entry of a reference list.\<close>

definition remap_id :: "(string \<times> string) list \<Rightarrow> jsval \<Rightarrow> js_error + jsval" where
  "remap_id idMapping x =
     (case to_string x of
        Inl e \<Rightarrow> Inl e
      | Inr key \<Rightarrow>
          (case get_mapping idMapping key of
             Some v \<Rightarrow> Inr (if truthy (Some v) then v else x)
           | None \<Rightarrow> Inr x))"

text \<open>\<^verbatim>\<open>Array.prototype.map\<close> with a callback that may throw.\<close>

fun mapE :: "('a \<Rightarrow> js_error + 'b) \<Rightarrow> 'a list \<Rightarrow> js_error + 'b list" where
  "mapE f [] = Inr []"
| "mapE f (x # xs) =
     (case f x of
        Inl e \<Rightarrow> Inl e
      | Inr y \<Rightarrow> (case mapE f xs of Inl e \<Rightarrow> Inl e | Inr ys \<Rightarrow> Inr (y # ys)))"

text \<open>
  \<^verbatim>\<open>if (newCard.f) { newCard.f = newCard.f.map(id => idMapping[id] || id).filter(id => id); }\<close>
  A truthy value that is not an array has no \<^verbatim>\<open>map\<close> method: a TypeError.
\<close>

definition remap_ref :: "(string \<times> string) list \<Rightarrow> string \<Rightarrow> card \<Rightarrow> js_error + card" where
  "remap_ref idMapping f newCard =
     (if truthy (map_of newCard f) then
        (case map_of newCard f of
           Some (JArr xs) \<Rightarrow>
             (case mapE (remap_id idMapping) xs of
                Inl e \<Rightarrow> Inl e
              | Inr ys \<Rightarrow>
                  Inr (AList.update f (JArr (filter (\<lambda>x. truthy (Some x)) ys)) newCard))
         | _ \<Rightarrow> Inl TypeError)
      else Inr newCard)"

text \<open>
  The body of the second loop up to the \<^verbatim>\<open>push\<close>, for one incoming card. \<open>t1\<close> and \<open>t2\<close>
  are the two clock readings for \<^verbatim>\<open>createdAt\<close> and \<^verbatim>\<open>updatedAt\<close>. Assigning
  \<^verbatim>\<open>undefined\<close> to \<^verbatim>\<open>newCard.id\<close> (nothing under the key) leaves a property that reads as
  \<^verbatim>\<open>undefined\<close>, which is the deleted key here.
\<close>

definition import_card ::
  "(string \<times> string) list \<Rightarrow> string \<times> string \<Rightarrow> jsval \<Rightarrow> js_error + card" where
  "import_card idMapping ts c =
     (case read_prop c ''id'' of
        Inl e \<Rightarrow> Inl e
      | Inr oldId \<Rightarrow>
          (case property_key oldId of
             Inl e \<Rightarrow> Inl e
           | Inr key \<Rightarrow>
               (let newCard = own_props c;
                    newCard = (case get_mapping idMapping key of
                                 Some v \<Rightarrow> AList.update ''id'' v newCard
                               | None \<Rightarrow> AList.delete ''id'' newCard)
                in case remap_ref idMapping ''adjacentLocations'' newCard of
                     Inl e \<Rightarrow> Inl e
                   | Inr newCard \<Rightarrow>
                       (case remap_ref idMapping ''presentCharacters'' newCard of
                          Inl e \<Rightarrow> Inl e
                        | Inr newCard \<Rightarrow>
                            (case remap_ref idMapping ''bonds'' newCard of
                               Inl e \<Rightarrow> Inl e
                             | Inr newCard \<Rightarrow>
                                 Inr (AList.update ''updatedAt'' (JStr (snd ts))
                                       (AList.update ''createdAt'' (JStr (fst ts)) newCard)))))))"

text \<open>
  Second pass: every incoming card is rewritten and pushed onto \<^verbatim>\<open>dataStore.cards\<close>. An
  exception leaves the cards pushed so far in the collection. \<open>clock k\<close> is the pair of
  clock readings for the k-th card.
\<close>

fun second_pass ::
  "(string \<times> string) list \<Rightarrow> (nat \<Rightarrow> string \<times> string) \<Rightarrow> nat \<Rightarrow> jsval list \<Rightarrow> card list
     \<Rightarrow> js_error option \<times> card list" where
  "second_pass idMapping clock k [] cs = (None, cs)"
| "second_pass idMapping clock k (c # rest) cs =
     (case import_card idMapping (clock k) c of
        Inl e \<Rightarrow> (Some e, cs)
      | Inr newCard \<Rightarrow> second_pass idMapping clock (Suc k) rest (cs @ [newCard]))"

text \<open>
  The three calls that follow the second pass inside the \<^verbatim>\<open>try\<close>:
  \<^verbatim>\<open>ui.renderCardsList(); ui.renderCarousels(); ui.updateWelcomeScreen();\<close>. The first
  exception ends them; the store stays as the sort left it.
\<close>

definition render_imported :: "ui_context \<Rightarrow> datastore \<Rightarrow> js_error option \<times> datastore" where
  "render_imported ui s =
     (case renderCardsList ui s of
        (Some e, s1) \<Rightarrow> (Some e, s1)
      | (None, s1) \<Rightarrow>
          (case renderCarousels ui s1 of
             Some e \<Rightarrow> (Some e, s1)
           | None \<Rightarrow> (updateWelcomeScreen ui s1, s1)))"

text \<open>
  The \<^verbatim>\<open>try\<close> block of \<^verbatim>\<open>reader.onload\<close>. \<open>parsed\<close> is what \<^verbatim>\<open>JSON.parse\<close> made of the
  file's text, \<open>None\<close> when it threw a SyntaxError. The result is the exception thrown or the
  number of cards imported, with the store as the block left it. (\<^verbatim>\<open>existingIds\<close> and
  \<^verbatim>\<open>skipped\<close> are computed and never read.)
\<close>

definition import_try ::
  "(nat \<Rightarrow> nat \<times> string) \<Rightarrow> (nat \<Rightarrow> string \<times> string) \<Rightarrow> ui_context \<Rightarrow> jsval option \<Rightarrow> datastore
     \<Rightarrow> (js_error + nat) \<times> datastore" where
  "import_try gen clock ui parsed s =
     (case parsed of
        None \<Rightarrow> (Inl SyntaxError, s)
      | Some data \<Rightarrow>
          (case read_prop data ''cards'' of
             Inl e \<Rightarrow> (Inl e, s)
           | Inr v \<Rightarrow>
               (case v of
                  Some (JArr incoming) \<Rightarrow>
                    (case first_pass gen 0 incoming [] of
                       Inl e \<Rightarrow> (Inl e, s)
                     | Inr idMapping \<Rightarrow>
                         (case second_pass idMapping clock 0 incoming (cards s) of
                            (Some e, cs) \<Rightarrow> (Inl e, s\<lparr>cards := cs\<rparr>)
                          | (None, cs) \<Rightarrow>
                              (case render_imported ui (s\<lparr>cards := cs\<rparr>) of
                                 (Some e, s') \<Rightarrow> (Inl e, s')
                               | (None, s') \<Rightarrow> (Inr (length incoming), s'))))
                | _ \<Rightarrow> (Inl InvalidFormat, s))))"

text \<open>
  \<^verbatim>\<open>importCards\<close>: nothing happens without a file; a failed read shows its own toast; a
  loaded file runs the \<^verbatim>\<open>try\<close> block, whose \<^verbatim>\<open>catch\<close> shows one error toast whatever was
  thrown.
\<close>

datatype file_event = NoFile | ReadFailed | Loaded "jsval option"

definition importCards ::
  "(nat \<Rightarrow> nat \<times> string) \<Rightarrow> (nat \<Rightarrow> string \<times> string) \<Rightarrow> ui_context \<Rightarrow> file_event \<Rightarrow> datastore
     \<Rightarrow> toast list \<times> datastore" where
  "importCards gen clock ui ev s =
     (case ev of
        NoFile \<Rightarrow> ([], s)
      | ReadFailed \<Rightarrow> ([FileReadError], s)
      | Loaded parsed \<Rightarrow>
          (case import_try gen clock ui parsed s of
             (Inl e, s') \<Rightarrow> ([ImportInvalidFile], s')
           | (Inr imported, s') \<Rightarrow> ([CardsImported imported], s')))"

section \<open>Predicates and functions of the statements\<close>

text \<open>
  What the specification means by a case-insensitive substring match, said without any
  lowering function: two characters are the same letter when they are equal or are the
  upper and the lower case of one of the letters A to Z, and a text contains a query when
  some contiguous part of the text agrees with the query letter by letter.
\<close>

definition letter_pairs :: "(char \<times> char) list" where
  "letter_pairs = zip ''ABCDEFGHIJKLMNOPQRSTUVWXYZ'' ''abcdefghijklmnopqrstuvwxyz''"





text \<open>
  What is known of the runtime's \<^verbatim>\<open>toLowerCase\<close> on text made of ASCII characters (codes
  below 128) only: it lowers the letters A to Z and leaves every other character as it is.
  \<open>ascii_toLowerCase\<close> does that on every text; it is the lowering used in the examples.
  Beyond ASCII the search is described relative to the builtin, by \<open>builtin_matches\<close>.
\<close>

definition ascii_lower :: "char \<Rightarrow> char" where
  "ascii_lower c = (case map_of letter_pairs c of Some l \<Rightarrow> l | None \<Rightarrow> c)"

definition ascii_toLowerCase :: "string \<Rightarrow> string" where
  "ascii_toLowerCase t = map ascii_lower t"






text \<open>
  The three reference lists of a card, and what removing an id from the value of one of them
  means: an array loses every entry equal to the id, any other value is left alone.
\<close>

definition ref_fields :: "string set" where
  "ref_fields = {''adjacentLocations'', ''presentCharacters'', ''bonds''}"

definition without_id :: "string \<Rightarrow> jsval option \<Rightarrow> jsval option" where
  "without_id i v =
     (case v of Some (JArr xs) \<Rightarrow> Some (JArr (filter (\<lambda>x. x \<noteq> JStr i) xs)) | _ \<Rightarrow> v)"

text \<open>
  For an import: the property key under which the first pass files an incoming card
  (\<open>keyed\<close>: the card is not \<^verbatim>\<open>null\<close> and its id converts to a key), the incoming cards the
  second pass gets through without an exception (each reference list falsy, or an array
  whose entries convert to keys), and what the second pass makes of a reference list.
\<close>

definition incoming_key :: "jsval \<Rightarrow> string" where
  "incoming_key c =
     (case read_prop c ''id'' of
        Inr v \<Rightarrow> (case property_key v of Inr k \<Rightarrow> k | Inl e \<Rightarrow> [])
      | Inl e \<Rightarrow> [])"

definition keyed :: "jsval \<Rightarrow> bool" where
  "keyed c \<longleftrightarrow>
     (case read_prop c ''id'' of
        Inr v \<Rightarrow> (case property_key v of Inr k \<Rightarrow> True | Inl e \<Rightarrow> False)
      | Inl e \<Rightarrow> False)"

definition converts :: "jsval \<Rightarrow> bool" where
  "converts x \<longleftrightarrow> (case to_string x of Inr k \<Rightarrow> True | Inl e \<Rightarrow> False)"

definition importable :: "jsval \<Rightarrow> bool" where
  "importable c \<longleftrightarrow>
     keyed c
   \<and> (\<forall>f\<in>ref_fields. \<not> truthy (map_of (own_props c) f)
                       \<or> (\<exists>xs. map_of (own_props c) f = Some (JArr xs) \<and> list_all converts xs))"

definition remap_entry :: "(string \<times> string) list \<Rightarrow> jsval \<Rightarrow> jsval" where
  "remap_entry idMapping x = (case remap_id idMapping x of Inr y \<Rightarrow> y | Inl e \<Rightarrow> x)"

definition remapped :: "(string \<times> string) list \<Rightarrow> jsval option \<Rightarrow> jsval option" where
  "remapped idMapping v =
     (case v of
        Some (JArr xs) \<Rightarrow>
          Some (JArr (filter (\<lambda>x. truthy (Some x)) (map (remap_entry idMapping) xs)))
      | _ \<Rightarrow> v)"











text \<open>
  An incoming card on which the second pass throws: one of its reference lists is truthy
  and not an array.
\<close>

definition bad_refs :: "jsval \<Rightarrow> bool" where
  "bad_refs c \<longleftrightarrow>
     keyed c
   \<and> (\<exists>f\<in>ref_fields. truthy (map_of (own_props c) f)
                       \<and> (\<forall>xs. map_of (own_props c) f \<noteq> Some (JArr xs)))"

text \<open>Reading a decimal rendering back, to show that \<open>dec\<close> loses nothing.\<close>

definition digit_val :: "char \<Rightarrow> nat" where
  "digit_val c = (case findIndex (\<lambda>d. d = c) ''0123456789'' of Some k \<Rightarrow> k | None \<Rightarrow> 0)"

definition undec :: "string \<Rightarrow> nat" where
  "undec s = foldl (\<lambda>a c. 10 * a + digit_val c) 0 s"

section \<open>Example data\<close>

definition tavern :: card where
  "tavern = [(''id'', JStr ''card_1_a''), (''createdAt'', JStr ''T0''), (''updatedAt'', JStr ''T0''),
             (''type'', JStr ''local''), (''name'', JStr ''Tavern''),
             (''adjacentLocations'', JArr [JStr ''card_2_b'']),
             (''presentCharacters'', JArr [JStr ''card_3_c'', JStr ''card_4_d''])]"

definition market :: card where
  "market = [(''id'', JStr ''card_2_b''), (''createdAt'', JStr ''T1''), (''updatedAt'', JStr ''T1''),
             (''type'', JStr ''local''), (''name'', JStr ''Market''),
             (''description'', JStr ''A busy SQUARE''),
             (''adjacentLocations'', JArr [JStr ''card_1_a'']),
             (''presentCharacters'', JArr [])]"

definition hero :: card where
  "hero = [(''id'', JStr ''card_3_c''), (''createdAt'', JStr ''T2''), (''updatedAt'', JStr ''T2''),
           (''type'', JStr ''personagem''), (''name'', JStr ''Hero''),
           (''bonds'', JArr [JStr ''card_4_d''])]"

definition rival :: card where
  "rival = [(''id'', JStr ''card_4_d''), (''createdAt'', JStr ''T3''), (''updatedAt'', JStr ''T3''),
            (''type'', JStr ''personagem''), (''name'', JStr ''Rival''),
            (''bonds'', JArr [JStr ''card_3_c''])]"

definition demo_store :: datastore where
  "demo_store = \<lparr>cards = [tavern, market, hero, rival], navigationHistory = []\<rparr>"



definition nameless :: card where
  "nameless = [(''id'', JStr ''card_9_z''), (''type'', JStr ''evento'')]"

definition demo_after_delete :: datastore where
  "demo_after_delete =
     \<lparr>cards =
        [[(''id'', JStr ''card_1_a''), (''createdAt'', JStr ''T0''), (''updatedAt'', JStr ''T0''),
          (''type'', JStr ''local''), (''name'', JStr ''Tavern''),
          (''adjacentLocations'', JArr [JStr ''card_2_b'']),
          (''presentCharacters'', JArr [JStr ''card_4_d''])],
         market,
         [(''id'', JStr ''card_4_d''), (''createdAt'', JStr ''T3''), (''updatedAt'', JStr ''T3''),
          (''type'', JStr ''personagem''), (''name'', JStr ''Rival''),
          (''bonds'', JArr [])]],
      navigationHistory = []\<rparr>"

text \<open>
  A runtime for the examples. The sort is a stable insertion sort that hands the array
  back untouched when the comparator throws, as \<^verbatim>\<open>Array.prototype.sort\<close> is specified; the
  comparison of names is by character code, which is how \<^verbatim>\<open>localeCompare\<close> orders the
  capitalised ASCII names of the examples; no filter is set; the markup of the example
  cards, whose printed fields are strings, raises nothing.
\<close>

fun insert_card ::
  "(card \<Rightarrow> card \<Rightarrow> js_error + int) \<Rightarrow> card \<Rightarrow> card list \<Rightarrow> js_error + card list" where
  "insert_card cmp x [] = Inr [x]"
| "insert_card cmp x (y # ys) =
     (case cmp x y of
        Inl e \<Rightarrow> Inl e
      | Inr r \<Rightarrow>
          if r \<le> 0 then Inr (x # y # ys)
          else (case insert_card cmp x ys of Inl e \<Rightarrow> Inl e | Inr zs \<Rightarrow> Inr (y # zs)))"

fun sort_cards :: "(card \<Rightarrow> card \<Rightarrow> js_error + int) \<Rightarrow> card list \<Rightarrow> js_error + card list" where
  "sort_cards cmp [] = Inr []"
| "sort_cards cmp (x # xs) =
     (case sort_cards cmp xs of Inl e \<Rightarrow> Inl e | Inr ys \<Rightarrow> insert_card cmp x ys)"

definition stable_sort ::
  "(card \<Rightarrow> card \<Rightarrow> js_error + int) \<Rightarrow> card list \<Rightarrow> js_error option \<times> card list" where
  "stable_sort cmp xs =
     (case sort_cards cmp xs of Inl e \<Rightarrow> (Some e, xs) | Inr ys \<Rightarrow> (None, ys))"

definition char_code :: "char \<Rightarrow> nat" where
  "char_code c =
     (case findIndex (\<lambda>d. d = c) ''ABCDEFGHIJKLMNOPQRSTUVWXYZabcdefghijklmnopqrstuvwxyz'' of
        Some k \<Rightarrow> Suc k
      | None \<Rightarrow> 0)"

fun code_compare :: "string \<Rightarrow> string \<Rightarrow> int" where
  "code_compare [] [] = 0"
| "code_compare [] (y # ys) = - 1"
| "code_compare (x # xs) [] = 1"
| "code_compare (x # xs) (y # ys) =
     (if x = y then code_compare xs ys
      else if char_code x < char_code y then - 1 else 1)"

definition no_markup_error :: "card list \<Rightarrow> js_error option" where
  "no_markup_error cs = None"

definition demo_ui :: ui_context where
  "demo_ui = \<lparr>currentFilter = ''all'', array_sort = stable_sort, localeCompare = code_compare,
               list_markup = no_markup_error, carousel_markup = no_markup_error\<rparr>"

definition demo_gen :: "nat \<Rightarrow> nat \<times> string" where
  "demo_gen k = (42, ''r'' @ dec k)"

definition demo_clock :: "nat \<Rightarrow> string \<times> string" where
  "demo_clock k = (''T9'', ''T9'')"


definition stuck_gen :: "nat \<Rightarrow> nat \<times> string" where
  "stuck_gen k = (1700000000000, ''k3f9x2m7q'')"

definition feast_store :: datastore where
  "feast_store =
     snd (createCard 1700000000000 ''k3f9x2m7q'' ''T4'' ''T4''
            [(''type'', JStr ''evento''), (''name'', JStr ''Feast'')] demo_store)"

definition inn :: card where
  "inn = [(''id'', JStr ''card_5_x''), (''createdAt'', JStr ''T4''), (''updatedAt'', JStr ''T5''),
          (''type'', JStr ''local''), (''name'', JStr ''Inn''),
          (''adjacentLocations'', JArr []),
          (''presentCharacters'', JArr [JStr ''card_6_y'', JStr ''card_0_q''])]"




definition inn_copy :: card where
  "inn_copy = [(''id'', JStr ''card_42_r0''), (''createdAt'', JStr ''T9''), (''updatedAt'', JStr ''T9''),
               (''type'', JStr ''local''), (''name'', JStr ''Inn''),
               (''adjacentLocations'', JArr []),
               (''presentCharacters'', JArr [JStr ''card_42_r1'', JStr ''card_0_q''])]"












definition broken_doc :: jsval where
  "broken_doc = JObj [(''version'', JStr ''1.0''), (''exportDate'', JStr ''T7''),
                      (''cards'', JArr [JObj inn,
                                        JObj [(''id'', JStr ''card_6_y''), (''name'', JStr ''Guard''),
                                              (''bonds'', JStr ''card_5_x'')]])]"

section \<open>Lookup lemmas\<close>

lemma findIndex_Some:
  "findIndex P xs = Some k \<Longrightarrow> k < length xs \<and> P (xs ! k) \<and> (\<forall>j<k. \<not> P (xs ! j))"
proof (induction xs arbitrary: k)
  case Nil
  then show ?case by simp
next
  case (Cons x xs)
  show ?case
  proof (cases "P x")
    case True
    with Cons.prems show ?thesis by simp
  next
    case False
    with Cons.prems obtain k' where k': "findIndex P xs = Some k'" "k = Suc k'"
      by auto
    from Cons.IH [OF k'(1)] False k'(2) show ?thesis
      by (auto simp: nth_Cons split: nat.splits)
  qed
qed

lemma findIndex_None: "findIndex P xs = None \<longleftrightarrow> (\<forall>x\<in>set xs. \<not> P x)"
  by (induction xs) auto

lemma findIndex_member:
  "x \<in> set xs \<Longrightarrow> P x \<Longrightarrow> \<exists>k. findIndex P xs = Some k"
  using findIndex_None [of P xs] by (cases "findIndex P xs") auto

lemma map_of_spread:
  "distinct (map fst src) \<Longrightarrow>
   map_of (spread target src) k =
     (case map_of src k of Some v \<Rightarrow> Some v | None \<Rightarrow> map_of target k)"
  unfolding spread_def
proof (induction src arbitrary: target)
  case Nil
  then show ?case by simp
next
  case (Cons p src)
  obtain k' v' where p: "p = (k', v')" by (cases p)
  from Cons.prems p have notin: "map_of src k' = None" and dist: "distinct (map fst src)"
    by (auto simp: map_of_eq_None_iff)
  show ?case
    using Cons.IH [OF dist, of "AList.update k' v' target"] notin
    by (auto simp: p update_conv' split: option.splits)
qed

lemma map_of_update:
  "map_of (AList.update k v al) k' = (if k' = k then Some v else map_of al k')"
  by (simp add: update_conv')

section \<open>Navigation history: the bound\<close>

lemma pushToHistory_nav:
  "navigationHistory (pushToHistory x s) =
     (if length (navigationHistory s) \<ge> 20 then tl (navigationHistory s @ [x])
      else navigationHistory s @ [x])"
  by (simp add: pushToHistory_def Let_def)

lemma fold_pushToHistory:
  "length (navigationHistory s) \<le> 20 \<Longrightarrow>
   navigationHistory (fold pushToHistory ids s) =
     drop (length (navigationHistory s) + length ids - 20) (navigationHistory s @ ids)"
proof (induction ids arbitrary: s)
  case Nil
  then show ?case by simp
next
  case (Cons x xs)
  let ?h = "navigationHistory s"
  show ?case
  proof (cases "length ?h = 20")
    case True
    then have ne: "?h \<noteq> []" by auto
    have nav: "navigationHistory (pushToHistory x s) = tl ?h @ [x]"
      using True ne by (simp add: pushToHistory_nav)
    have len: "length (navigationHistory (pushToHistory x s)) = 20"
      using True nav by simp
    have step: "navigationHistory (fold pushToHistory (x # xs) s) =
          drop (length xs) (tl ?h @ x # xs)"
      using Cons.IH [of "pushToHistory x s"] len nav by simp
    have "drop (Suc (length xs)) (?h @ x # xs) = drop (length xs) (tl (?h @ x # xs))"
      by (simp only: drop_Suc)
    also have "tl (?h @ x # xs) = tl ?h @ x # xs"
      using ne by simp
    finally have "drop (Suc (length xs)) (?h @ x # xs) = drop (length xs) (tl ?h @ x # xs)" .
    moreover have "length ?h + length (x # xs) - 20 = Suc (length xs)"
      using True by simp
    ultimately show ?thesis
      using step by (simp only:)
  next
    case False
    with Cons.prems have lt: "length ?h < 20" by simp
    have nav: "navigationHistory (pushToHistory x s) = ?h @ [x]"
      using lt by (simp add: pushToHistory_nav)
    show ?thesis
      using Cons.IH [of "pushToHistory x s"] lt nav by simp
  qed
qed

lemma push_25_into_empty:
  assumes "length ids = 25" and "distinct ids"
  shows "navigationHistory (fold pushToHistory ids (s\<lparr>navigationHistory := []\<rparr>)) = drop 5 ids
       \<and> length (navigationHistory (fold pushToHistory ids (s\<lparr>navigationHistory := []\<rparr>))) = 20
       \<and> set (take 5 ids) \<inter>
           set (navigationHistory (fold pushToHistory ids (s\<lparr>navigationHistory := []\<rparr>))) = {}"
proof -
  let ?s0 = "s\<lparr>navigationHistory := []\<rparr>"
  have h0: "navigationHistory ?s0 = []" by simp
  have "navigationHistory (fold pushToHistory ids ?s0) =
          drop (length (navigationHistory ?s0) + length ids - 20) (navigationHistory ?s0 @ ids)"
    by (rule fold_pushToHistory) (simp only: h0 list.size)
  also have "\<dots> = drop 5 ids"
  proof -
    have "(0::nat) + 25 - 20 = 5" by simp
    then show ?thesis by (simp only: h0 assms(1) list.size append_Nil)
  qed
  finally have nav: "navigationHistory (fold pushToHistory ids ?s0) = drop 5 ids" .
  have len: "length (drop 5 ids) = 20"
    by (simp only: length_drop assms(1))
  have "distinct (take 5 ids @ drop 5 ids)"
    using assms(2) by (simp only: append_take_drop_id)
  then have dis: "set (take 5 ids) \<inter> set (drop 5 ids) = {}"
    by (simp only: distinct_append)
  show ?thesis
    unfolding nav using len dis by (intro conjI) (rule refl, assumption+)
qed

text \<open>
  C7. \<^verbatim>\<open>pushToHistory\<close> appends the id and, once the history would hold more than 20
  entries, drops the oldest one; it touches nothing else. So a history that holds at most 20
  entries holds, after any sequence of pushes, the last 20 of its entries followed by the
  pushed ids, in order, and never more than 20. Starting from the empty history, pushing
  25 distinct ids leaves exactly the last 20 of them, in push order, and none of the first 5.
\<close>

theorem pushToHistory_keeps_last_20:
  "navigationHistory (pushToHistory x s) =
     (if 20 \<le> length (navigationHistory s) then tl (navigationHistory s @ [x])
      else navigationHistory s @ [x])
 \<and> cards (pushToHistory x s) = cards s
 \<and> (length (navigationHistory s) \<le> 20 \<longrightarrow>
       navigationHistory (fold pushToHistory ids s) =
         drop (length (navigationHistory s) + length ids - 20) (navigationHistory s @ ids)
     \<and> length (navigationHistory (fold pushToHistory ids s)) \<le> 20)
 \<and> navigationHistory (fold pushToHistory ids (s\<lparr>navigationHistory := []\<rparr>)) =
       drop (length ids - 20) ids
 \<and> (length ids = 25 \<and> distinct ids \<longrightarrow>
       navigationHistory (fold pushToHistory ids (s\<lparr>navigationHistory := []\<rparr>)) = drop 5 ids
     \<and> length (navigationHistory (fold pushToHistory ids (s\<lparr>navigationHistory := []\<rparr>))) = 20
     \<and> set (take 5 ids) \<inter>
           set (navigationHistory (fold pushToHistory ids (s\<lparr>navigationHistory := []\<rparr>))) = {})"
proof -
  have one: "navigationHistory (pushToHistory x s) =
     (if 20 \<le> length (navigationHistory s) then tl (navigationHistory s @ [x])
      else navigationHistory s @ [x])"
    by (rule pushToHistory_nav)
  have frame: "cards (pushToHistory x s) = cards s"
    by (simp add: pushToHistory_def Let_def)
  have many: "navigationHistory (fold pushToHistory ids s) =
         drop (length (navigationHistory s) + length ids - 20) (navigationHistory s @ ids)
     \<and> length (navigationHistory (fold pushToHistory ids s)) \<le> 20"
    if le: "length (navigationHistory s) \<le> 20"
  proof -
    have eq: "navigationHistory (fold pushToHistory ids s) =
         drop (length (navigationHistory s) + length ids - 20) (navigationHistory s @ ids)"
      using le by (rule fold_pushToHistory)
    have "length (drop (length (navigationHistory s) + length ids - 20) (navigationHistory s @ ids))
            \<le> 20"
      by (simp only: length_drop length_append)
    with eq show ?thesis by (simp only:)
  qed
  let ?s0 = "s\<lparr>navigationHistory := []\<rparr>"
  have h0: "navigationHistory ?s0 = []" by simp
  have "navigationHistory (fold pushToHistory ids ?s0) =
          drop (length (navigationHistory ?s0) + length ids - 20) (navigationHistory ?s0 @ ids)"
    by (rule fold_pushToHistory) (simp only: h0 list.size)
  then have empty: "navigationHistory (fold pushToHistory ids ?s0) = drop (length ids - 20) ids"
    by (simp only: h0 list.size append_Nil add_0)
  have twentyfive:
    "navigationHistory (fold pushToHistory ids ?s0) = drop 5 ids
     \<and> length (navigationHistory (fold pushToHistory ids ?s0)) = 20
     \<and> set (take 5 ids) \<inter> set (navigationHistory (fold pushToHistory ids ?s0)) = {}"
    if "length ids = 25 \<and> distinct ids"
    using that by (intro push_25_into_empty) (elim conjE, assumption)+
  show ?thesis
    using one frame many empty twentyfive by (intro conjI impI) blast+
qed

theorem pushToHistory_keeps_last_20_witness:
  "navigationHistory (fold pushToHistory
     [''c0'', ''c1'', ''c2'', ''c3'', ''c4'', ''c5'', ''c6'', ''c7'', ''c8'', ''c9'', ''c10'',
      ''c11'', ''c12'', ''c13'', ''c14'', ''c15'', ''c16'', ''c17'', ''c18'', ''c19'', ''c20'',
      ''c21'', ''c22'', ''c23'', ''c24''] (new_DataStore\<lparr>navigationHistory := []\<rparr>)) =
     [''c5'', ''c6'', ''c7'', ''c8'', ''c9'', ''c10'',
      ''c11'', ''c12'', ''c13'', ''c14'', ''c15'', ''c16'', ''c17'', ''c18'', ''c19'', ''c20'',
      ''c21'', ''c22'', ''c23'', ''c24'']
 \<and> navigationHistory (fold pushToHistory [''c25'', ''c26'']
       (new_DataStore\<lparr>navigationHistory := [''c5'', ''c6'', ''c7'', ''c8'', ''c9'', ''c10'',
      ''c11'', ''c12'', ''c13'', ''c14'', ''c15'', ''c16'', ''c17'', ''c18'', ''c19'', ''c20'',
      ''c21'', ''c22'', ''c23'', ''c24'']\<rparr>)) =
     [''c7'', ''c8'', ''c9'', ''c10'',
      ''c11'', ''c12'', ''c13'', ''c14'', ''c15'', ''c16'', ''c17'', ''c18'', ''c19'', ''c20'',
      ''c21'', ''c22'', ''c23'', ''c24'', ''c25'', ''c26'']"
proof -
  let ?ids = "[''c0'', ''c1'', ''c2'', ''c3'', ''c4'', ''c5'', ''c6'', ''c7'', ''c8'', ''c9'',
      ''c10'', ''c11'', ''c12'', ''c13'', ''c14'', ''c15'', ''c16'', ''c17'', ''c18'', ''c19'',
      ''c20'', ''c21'', ''c22'', ''c23'', ''c24'']"
  let ?full = "new_DataStore\<lparr>navigationHistory := drop 5 ?ids\<rparr>"
  have l: "length ?ids = 25" by simp
  have d: "distinct ?ids" by simp
  have "navigationHistory (fold pushToHistory ?ids (new_DataStore\<lparr>navigationHistory := []\<rparr>))
          = drop 5 ?ids"
    using pushToHistory_keeps_last_20 [of _ new_DataStore ?ids] l d by blast
  also have "drop 5 ?ids = [''c5'', ''c6'', ''c7'', ''c8'', ''c9'', ''c10'',
      ''c11'', ''c12'', ''c13'', ''c14'', ''c15'', ''c16'', ''c17'', ''c18'', ''c19'', ''c20'',
      ''c21'', ''c22'', ''c23'', ''c24'']"
    by simp
  finally have first: "navigationHistory (fold pushToHistory ?ids
      (new_DataStore\<lparr>navigationHistory := []\<rparr>)) = [''c5'', ''c6'', ''c7'', ''c8'', ''c9'', ''c10'',
      ''c11'', ''c12'', ''c13'', ''c14'', ''c15'', ''c16'', ''c17'', ''c18'', ''c19'', ''c20'',
      ''c21'', ''c22'', ''c23'', ''c24'']" .
  have le: "length (navigationHistory ?full) \<le> 20" by simp
  have "navigationHistory (fold pushToHistory [''c25'', ''c26''] ?full) =
          drop (length (navigationHistory ?full) + length [''c25'', ''c26''] - 20)
               (navigationHistory ?full @ [''c25'', ''c26''])"
    using pushToHistory_keeps_last_20 [of _ ?full "[''c25'', ''c26'']"] le by blast
  also have "\<dots> = [''c7'', ''c8'', ''c9'', ''c10'',
      ''c11'', ''c12'', ''c13'', ''c14'', ''c15'', ''c16'', ''c17'', ''c18'', ''c19'', ''c20'',
      ''c21'', ''c22'', ''c23'', ''c24'', ''c25'', ''c26'']"
    by simp
  finally have second: "navigationHistory (fold pushToHistory [''c25'', ''c26''] ?full) =
      [''c7'', ''c8'', ''c9'', ''c10'',
      ''c11'', ''c12'', ''c13'', ''c14'', ''c15'', ''c16'', ''c17'', ''c18'', ''c19'', ''c20'',
      ''c21'', ''c22'', ''c23'', ''c24'', ''c25'', ''c26'']" .
  have full: "?full = new_DataStore\<lparr>navigationHistory := [''c5'', ''c6'', ''c7'', ''c8'', ''c9'', ''c10'',
      ''c11'', ''c12'', ''c13'', ''c14'', ''c15'', ''c16'', ''c17'', ''c18'', ''c19'', ''c20'',
      ''c21'', ''c22'', ''c23'', ''c24'']\<rparr>" by simp
  show ?thesis
    using first second unfolding full by (intro conjI)
qed

section \<open>Update\<close>

text \<open>
  C6. For the id \<open>i\<close> of an existing card and a partial with the single field \<open>x\<close>,
  \<^verbatim>\<open>updateCard\<close> replaces the first card carrying that id, in place, by a card in which
  \<open>x\<close> holds the new value and \<^verbatim>\<open>updatedAt\<close> holds the time of the update; every other
  property, \<^verbatim>\<open>createdAt\<close> among them, reads as before, and that card is returned.
\<close>

theorem updateCard_single_field:
  assumes "c \<in> set (cards s)" and "has_id i c"
  shows "\<exists>index merged.
           findIndex (has_id i) (cards s) = Some index
         \<and> index < length (cards s)
         \<and> has_id i (cards s ! index)
         \<and> updateCard i now [(x, v)] s = (Some merged, s\<lparr>cards := (cards s)[index := merged]\<rparr>)
         \<and> map_of merged ''updatedAt'' = Some (JStr now)
         \<and> (x \<noteq> ''updatedAt'' \<longrightarrow> map_of merged x = Some v)
         \<and> (x \<noteq> ''createdAt'' \<longrightarrow>
              map_of merged ''createdAt'' = map_of (cards s ! index) ''createdAt'')
         \<and> (\<forall>f. f \<noteq> x \<and> f \<noteq> ''updatedAt'' \<longrightarrow> map_of merged f = map_of (cards s ! index) f)"
proof -
  from findIndex_member [of c "cards s" "has_id i"] assms obtain index
    where idx: "findIndex (has_id i) (cards s) = Some index" by blast
  let ?merged = "AList.update ''updatedAt'' (JStr now) (spread (cards s ! index) [(x, v)])"
  have res: "updateCard i now [(x, v)] s = (Some ?merged, s\<lparr>cards := (cards s)[index := ?merged]\<rparr>)"
    by (simp add: updateCard_def idx Let_def)
  have look: "map_of ?merged f =
      (if f = ''updatedAt'' then Some (JStr now) else if f = x then Some v
       else map_of (cards s ! index) f)" for f
    by (simp add: map_of_update map_of_spread)
  from findIndex_Some [OF idx] have "index < length (cards s)" "has_id i (cards s ! index)"
    by simp_all
  with idx res look show ?thesis
    by (intro exI [of _ index] exI [of _ ?merged]) simp
qed

theorem updateCard_single_field_witness:
  "market \<in> set (cards demo_store) \<and> has_id ''card_2_b'' market
   \<and> updateCard ''card_2_b'' ''T9'' [(''name'', JStr ''Bazaar'')] demo_store =
       (Some [(''id'', JStr ''card_2_b''), (''createdAt'', JStr ''T1''), (''updatedAt'', JStr ''T9''),
              (''type'', JStr ''local''), (''name'', JStr ''Bazaar''),
              (''description'', JStr ''A busy SQUARE''),
              (''adjacentLocations'', JArr [JStr ''card_1_a'']),
              (''presentCharacters'', JArr [])],
        \<lparr>cards = [tavern,
           [(''id'', JStr ''card_2_b''), (''createdAt'', JStr ''T1''), (''updatedAt'', JStr ''T9''),
            (''type'', JStr ''local''), (''name'', JStr ''Bazaar''),
            (''description'', JStr ''A busy SQUARE''),
            (''adjacentLocations'', JArr [JStr ''card_1_a'']),
            (''presentCharacters'', JArr [])],
           hero, rival], navigationHistory = []\<rparr>)"
proof -
  have h1: "market \<in> set (cards demo_store)" by (simp add: demo_store_def)
  have h2: "has_id ''card_2_b'' market" by (simp add: has_id_def market_def)
  from updateCard_single_field [OF h1 h2, of "''T9''" "''name''" "JStr ''Bazaar''"]
  obtain index merged where
    idx: "findIndex (has_id ''card_2_b'') (cards demo_store) = Some index" and
    upd: "updateCard ''card_2_b'' ''T9'' [(''name'', JStr ''Bazaar'')] demo_store =
            (Some merged, demo_store\<lparr>cards := (cards demo_store)[index := merged]\<rparr>)"
    by blast
  have "findIndex (has_id ''card_2_b'') (cards demo_store) = Some 1"
    by (simp add: demo_store_def has_id_def tavern_def market_def)
  with idx have index: "index = 1" by simp
  have "fst (updateCard ''card_2_b'' ''T9'' [(''name'', JStr ''Bazaar'')] demo_store) =
      Some [(''id'', JStr ''card_2_b''), (''createdAt'', JStr ''T1''), (''updatedAt'', JStr ''T9''),
              (''type'', JStr ''local''), (''name'', JStr ''Bazaar''),
              (''description'', JStr ''A busy SQUARE''),
              (''adjacentLocations'', JArr [JStr ''card_1_a'']),
              (''presentCharacters'', JArr [])]"
    by (simp add: updateCard_def demo_store_def has_id_def tavern_def market_def
          spread_def Let_def)
  with upd index h1 h2 show ?thesis
    by (simp add: demo_store_def)
qed

section \<open>Create\<close>

text \<open>
  The claim C5 as it is written fails on the code. \<^verbatim>\<open>cardData\<close> is spread after the
  defaults, so an \<^verbatim>\<open>id\<close> the caller passes replaces the generated one and can repeat an
  existing id; \<^verbatim>\<open>generateId\<close> never looks at the collection, so the same clock value and
  random suffix give the same id twice; and the two timestamps are two readings of the clock.
\<close>

theorem createCard_id_collision:
  "map_of (fst (createCard 7 ''r'' ''T5'' ''T5'' [(''id'', JStr ''card_2_b''), (''name'', JStr ''Twin'')]
       demo_store)) ''id'' = map_of (cards demo_store ! 1) ''id''
   \<and> map_of (fst (createCard 1700000000000 ''k3f9x2m7q'' ''T5'' ''T5'' [(''name'', JStr ''Again'')]
         feast_store)) ''id''
       = map_of (cards feast_store ! 4) ''id''
   \<and> map_of (fst (createCard 7 ''r'' ''T5'' ''T6'' [(''name'', JStr ''Late'')] demo_store)) ''createdAt''
       \<noteq> map_of (fst (createCard 7 ''r'' ''T5'' ''T6'' [(''name'', JStr ''Late'')] demo_store)) ''updatedAt''"
  by (simp add: createCard_def feast_store_def demo_store_def market_def spread_def Let_def)

text \<open>
  C5, amended. \<^verbatim>\<open>createCard\<close> appends to the end of the collection, and returns, the card
  whose properties are those of \<^verbatim>\<open>cardData\<close> and, for the names \<^verbatim>\<open>cardData\<close> lacks, the
  defaults: the generated id and the two clock readings. When \<^verbatim>\<open>cardData\<close> has no
  \<^verbatim>\<open>id\<close> and no existing card carries the generated id, the new card's id differs from
  every existing card's id. When \<^verbatim>\<open>cardData\<close> has neither timestamp and the two clock
  readings agree, \<^verbatim>\<open>createdAt\<close> and \<^verbatim>\<open>updatedAt\<close> are that reading.
\<close>

theorem createCard_merges_over_defaults:
  assumes "distinct (map fst cardData)"
  shows "\<exists>newCard.
      createCard now suffix t1 t2 cardData s = (newCard, s\<lparr>cards := cards s @ [newCard]\<rparr>)
    \<and> (\<forall>f. map_of newCard f =
          (case map_of cardData f of
             Some v \<Rightarrow> Some v
           | None \<Rightarrow> map_of [(''id'', JStr (generateId now suffix)), (''createdAt'', JStr t1),
                             (''updatedAt'', JStr t2)] f))
    \<and> (map_of cardData ''id'' = None \<longrightarrow>
          map_of newCard ''id'' = Some (JStr (generateId now suffix)))
    \<and> (map_of cardData ''id'' = None \<and> (\<forall>c\<in>set (cards s). \<not> has_id (generateId now suffix) c) \<longrightarrow>
          (\<forall>c\<in>set (cards s). map_of c ''id'' \<noteq> map_of newCard ''id''))
    \<and> (map_of cardData ''createdAt'' = None \<and> map_of cardData ''updatedAt'' = None \<and> t1 = t2 \<longrightarrow>
          map_of newCard ''createdAt'' = Some (JStr t1) \<and> map_of newCard ''updatedAt'' = Some (JStr t1))"
proof -
  let ?new = "spread [(''id'', JStr (generateId now suffix)), (''createdAt'', JStr t1),
                           (''updatedAt'', JStr t2)] cardData"
  have res: "createCard now suffix t1 t2 cardData s = (?new, s\<lparr>cards := cards s @ [?new]\<rparr>)"
    by (simp add: createCard_def Let_def)
  have look: "map_of ?new f =
          (case map_of cardData f of
             Some v \<Rightarrow> Some v
           | None \<Rightarrow> map_of [(''id'', JStr (generateId now suffix)), (''createdAt'', JStr t1),
                             (''updatedAt'', JStr t2)] f)" for f
    using assms by (rule map_of_spread)
  have id: "map_of cardData ''id'' = None \<Longrightarrow> map_of ?new ''id'' = Some (JStr (generateId now suffix))"
    by (simp add: look)
  have fresh: "\<forall>c\<in>set (cards s). map_of c ''id'' \<noteq> map_of ?new ''id''"
    if "map_of cardData ''id'' = None" "\<forall>c\<in>set (cards s). \<not> has_id (generateId now suffix) c"
    using that id by (auto simp: has_id_def)
  have stamps: "map_of ?new ''createdAt'' = Some (JStr t1) \<and> map_of ?new ''updatedAt'' = Some (JStr t1)"
    if "map_of cardData ''createdAt'' = None" "map_of cardData ''updatedAt'' = None" "t1 = t2"
    using that assms by (simp add: map_of_spread)
  show ?thesis
    using res look id fresh stamps by (intro exI [of _ ?new]) blast
qed

theorem createCard_merges_over_defaults_witness:
  "createCard 7 ''r'' ''T5'' ''T5'' [(''type'', JStr ''evento''), (''name'', JStr ''Feast'')] demo_store =
     ([(''id'', JStr ''card_7_r''), (''createdAt'', JStr ''T5''), (''updatedAt'', JStr ''T5''),
       (''type'', JStr ''evento''), (''name'', JStr ''Feast'')],
      \<lparr>cards = [tavern, market, hero, rival,
         [(''id'', JStr ''card_7_r''), (''createdAt'', JStr ''T5''), (''updatedAt'', JStr ''T5''),
          (''type'', JStr ''evento''), (''name'', JStr ''Feast'')]], navigationHistory = []\<rparr>)
   \<and> \<not> has_id (generateId 7 ''r'') tavern \<and> \<not> has_id (generateId 7 ''r'') market
   \<and> \<not> has_id (generateId 7 ''r'') hero \<and> \<not> has_id (generateId 7 ''r'') rival"
proof -
  have dk: "distinct (map fst [(''type'', JStr ''evento''), (''name'', JStr ''Feast'')])"
    by simp
  from createCard_merges_over_defaults
         [OF dk, of 7 "''r''" "''T5''" "''T5''" demo_store]
  obtain newCard where
    res: "createCard 7 ''r'' ''T5'' ''T5'' [(''type'', JStr ''evento''), (''name'', JStr ''Feast'')] demo_store
            = (newCard, demo_store\<lparr>cards := cards demo_store @ [newCard]\<rparr>)"
    by blast
  have g: "generateId 7 ''r'' = ''card_7_r''"
    by (simp add: generateId_def dec.simps)
  have new: "newCard = [(''id'', JStr ''card_7_r''), (''createdAt'', JStr ''T5''), (''updatedAt'', JStr ''T5''),
           (''type'', JStr ''evento''), (''name'', JStr ''Feast'')]"
    using res by (simp add: createCard_def g spread_def Let_def)
  have ids: "\<not> has_id ''card_7_r'' tavern" "\<not> has_id ''card_7_r'' market" "\<not> has_id ''card_7_r'' hero"
    "\<not> has_id ''card_7_r'' rival"
    by (simp_all add: has_id_def tavern_def market_def hero_def rival_def)
  show ?thesis
    using ids unfolding res g new by (simp add: demo_store_def)
qed

section \<open>Search\<close>

lemma starts_with_iff: "starts_with s q \<longleftrightarrow> (\<exists>ss. s = q @ ss)"
  by (induction s q rule: starts_with.induct) auto

lemma str_includes_iff: "str_includes s q \<longleftrightarrow> (\<exists>ps ss. s = ps @ q @ ss)"
proof (induction s)
  case Nil
  then show ?case by auto
next
  case (Cons c cs)
  show ?case
  proof
    assume "str_includes (c # cs) q"
    then consider "starts_with (c # cs) q" | "str_includes cs q" by auto
    then show "\<exists>ps ss. c # cs = ps @ q @ ss"
    proof cases
      case 1
      then obtain ss where "c # cs = q @ ss" by (auto simp: starts_with_iff)
      then have "c # cs = [] @ q @ ss" by simp
      then show ?thesis by blast
    next
      case 2
      with Cons.IH obtain ps ss where "cs = ps @ q @ ss" by blast
      then have "c # cs = (c # ps) @ q @ ss" by simp
      then show ?thesis by blast
    qed
  next
    assume "\<exists>ps ss. c # cs = ps @ q @ ss"
    then obtain ps ss where eq: "c # cs = ps @ q @ ss" by blast
    show "str_includes (c # cs) q"
    proof (cases ps)
      case Nil
      with eq have "starts_with (c # cs) q"
        by (simp only: starts_with_iff append_Nil) blast
      then show ?thesis by simp
    next
      case (Cons p ps')
      with eq have "cs = ps' @ q @ ss" by simp
      with Cons.IH have "str_includes cs q" by blast
      then show ?thesis by simp
    qed
  qed
qed









lemma filterE_Inl:
  "x \<in> set xs \<Longrightarrow> p x = Inl e \<Longrightarrow> \<exists>e'. filterE p xs = Inl e'"
  by (induction xs) (auto split: sum.splits)

lemma filterE_Inl_source:
  "filterE p xs = Inl e \<Longrightarrow> \<exists>x\<in>set xs. p x = Inl e"
  by (induction xs) (auto split: sum.splits)

lemma search_match_error: "search_match lower lq c = Inl e \<Longrightarrow> e = TypeError"
  by (auto simp: search_match_def split: option.splits jsval.splits if_splits)

lemma search_match_no_name:
  "map_of c ''name'' = None \<Longrightarrow> search_match lower lq c = Inl TypeError"
  by (simp add: search_match_def)




text \<open>
  C9. \<^verbatim>\<open>searchCards\<close> lowers every card's name without a guard: when some card of the
  collection has no \<^verbatim>\<open>name\<close>, the search raises a TypeError instead of returning a list.
  \<^verbatim>\<open>createCard\<close> produces such a collection from any \<^verbatim>\<open>cardData\<close> that has no name.
\<close>

theorem searchCards_fails_without_name:
  "(c \<in> set (cards s) \<and> map_of c ''name'' = None \<longrightarrow> searchCards lower q s = Inl TypeError)
 \<and> (distinct (map fst cardData) \<and> map_of cardData ''name'' = None \<longrightarrow>
      searchCards lower q (snd (createCard now suffix t1 t2 cardData s)) = Inl TypeError)"
proof -
  have gen: "searchCards lower q s' = Inl TypeError"
    if mem: "c' \<in> set (cards s')" and nn: "map_of c' ''name'' = None" for c' s'
  proof -
    obtain e where e: "searchCards lower q s' = Inl e"
      unfolding searchCards_def
      using filterE_Inl [of c' "cards s'" "search_match lower (lower q)" TypeError]
        mem search_match_no_name [OF nn, of lower "lower q"] by blast
    then obtain x where "search_match lower (lower q) x = Inl e"
      unfolding searchCards_def by (blast dest: filterE_Inl_source)
    then have "e = TypeError" by (rule search_match_error)
    with e show ?thesis by simp
  qed
  have "searchCards lower q (snd (createCard now suffix t1 t2 cardData s)) = Inl TypeError"
    if d: "distinct (map fst cardData)" and nn: "map_of cardData ''name'' = None"
  proof -
    let ?new = "fst (createCard now suffix t1 t2 cardData s)"
    have "?new \<in> set (cards (snd (createCard now suffix t1 t2 cardData s)))"
      by (simp add: createCard_def Let_def)
    moreover have "map_of ?new ''name'' = None"
      using nn by (simp add: createCard_def Let_def map_of_spread [OF d])
    ultimately show ?thesis by (rule gen)
  qed
  with gen show ?thesis by blast
qed

theorem searchCards_fails_without_name_witness:
  "nameless \<in> set (cards (demo_store\<lparr>cards := cards demo_store @ [nameless]\<rparr>))
   \<and> map_of nameless ''name'' = None
   \<and> searchCards ascii_toLowerCase ''tav'' (demo_store\<lparr>cards := cards demo_store @ [nameless]\<rparr>) = Inl TypeError
   \<and> distinct (map fst [(''type'', JStr ''evento'')])
   \<and> map_of [(''type'', JStr ''evento'')] ''name'' = None
   \<and> searchCards ascii_toLowerCase ''tav'' (snd (createCard 9 ''z'' ''T8'' ''T8'' [(''type'', JStr ''evento'')] demo_store))
        = Inl TypeError"
proof -
  let ?s = "demo_store\<lparr>cards := cards demo_store @ [nameless]\<rparr>"
  have a: "nameless \<in> set (cards ?s)" by simp
  have b: "map_of nameless ''name'' = None" by (simp add: nameless_def)
  have c: "distinct (map fst [(''type'', JStr ''evento'')])" by simp
  have d: "map_of [(''type'', JStr ''evento'')] ''name'' = None" by simp
  from searchCards_fails_without_name [where c = nameless and s = ?s and q = "''tav''" and lower = ascii_toLowerCase] a b
  have e: "searchCards ascii_toLowerCase ''tav'' ?s = Inl TypeError" by blast
  from searchCards_fails_without_name
         [where s = demo_store and q = "''tav''" and lower = ascii_toLowerCase and cardData = "[(''type'', JStr ''evento'')]"
            and now = 9 and suffix = "''z''" and ?t1.0 = "''T8''" and ?t2.0 = "''T8''"] c d
  have f:
    "searchCards ascii_toLowerCase ''tav'' (snd (createCard 9 ''z'' ''T8'' ''T8'' [(''type'', JStr ''evento'')] demo_store))
        = Inl TypeError" by blast
  from a b c d e f show ?thesis by blast
qed

section \<open>Delete\<close>

lemma strip_ref_ok:
  assumes "strip_ref f i c = (None, c')"
  shows "map_of c' g = (if g = f then without_id i (map_of c f) else map_of c g)"
proof (cases "truthy (map_of c f)")
  case False
  then have "c' = c" using assms by (simp add: strip_ref_def)
  moreover have "without_id i (map_of c f) = map_of c f"
    using False by (auto simp: without_id_def split: option.splits jsval.splits)
  ultimately show ?thesis by simp
next
  case True
  with assms obtain xs where xs: "map_of c f = Some (JArr xs)"
    and c': "c' = AList.update f (JArr (filter (\<lambda>x. x \<noteq> JStr i) xs)) c"
    by (auto simp: strip_ref_def split: option.splits jsval.splits)
  show ?thesis
    by (simp add: c' xs map_of_update without_id_def)
qed

lemma without_id_idem: "without_id i (without_id i v) = without_id i v"
  by (auto simp: without_id_def split: option.splits jsval.splits)

lemma strip_card_ok:
  assumes "strip_card i c = (None, c')"
  shows "map_of c' g = (if g \<in> ref_fields then without_id i (map_of c g) else map_of c g)"
proof -
  from assms obtain c1 c2 where
    s1: "strip_ref ''adjacentLocations'' i c = (None, c1)" and
    s2: "strip_ref ''presentCharacters'' i c1 = (None, c2)" and
    s3: "strip_ref ''bonds'' i c2 = (None, c')"
    by (auto simp: strip_card_def split: prod.splits option.splits)
  show ?thesis
    by (simp add: strip_ref_ok [OF s3] strip_ref_ok [OF s2] strip_ref_ok [OF s1] ref_fields_def)
qed

lemma strip_all_ok:
  "strip_all i cs = (None, cs') \<Longrightarrow>
   length cs' = length cs \<and> (\<forall>k<length cs. strip_card i (cs ! k) = (None, cs' ! k))"
proof (induction cs arbitrary: cs')
  case Nil
  then show ?case by simp
next
  case (Cons c cs)
  from Cons.prems obtain c' cs'' where
    c': "strip_card i c = (None, c')" and
    rest: "strip_all i cs = (None, cs'')" and
    eq: "cs' = c' # cs''"
    by (auto split: prod.splits option.splits)
  from Cons.IH [OF rest] c' eq show ?case
    by (auto simp: nth_Cons split: nat.splits)
qed

lemma deleteCard_True:
  assumes "deleteCard i s = (Inr True, s')"
  shows "\<exists>index cs. findIndex (has_id i) (cards s) = Some index
           \<and> strip_all i (cards s) = (None, cs)
           \<and> s' = s\<lparr>cards := take index cs @ drop (Suc index) cs\<rparr>"
  using assms
  by (auto simp: deleteCard_def split: option.splits prod.splits)

lemma nth_take_drop_Suc:
  "k < length xs - 1 \<Longrightarrow> index < length xs \<Longrightarrow>
   (take index xs @ drop (Suc index) xs) ! k = xs ! (if k < index then k else Suc k)"
  by (auto simp: nth_append min_def)

lemma deleteCard_stripped:
  assumes "deleteCard i s = (Inr True, s')"
  shows "\<exists>index cs. findIndex (has_id i) (cards s) = Some index
         \<and> index < length (cards s)
         \<and> length cs = length (cards s)
         \<and> s' = s\<lparr>cards := take index cs @ drop (Suc index) cs\<rparr>
         \<and> (\<forall>j<length (cards s). \<forall>g.
               map_of (cs ! j) g =
                 (if g \<in> ref_fields then without_id i (map_of (cards s ! j) g)
                  else map_of (cards s ! j) g))"
proof -
  from deleteCard_True [OF assms] obtain index cs where
    idx: "findIndex (has_id i) (cards s) = Some index" and
    sa: "strip_all i (cards s) = (None, cs)" and
    s': "s' = s\<lparr>cards := take index cs @ drop (Suc index) cs\<rparr>"
    by blast
  from findIndex_Some [OF idx] have lt: "index < length (cards s)" by simp
  from strip_all_ok [OF sa] have len: "length cs = length (cards s)"
    and each: "\<And>k. k < length (cards s) \<Longrightarrow> strip_card i (cards s ! k) = (None, cs ! k)"
    by simp_all
  have "map_of (cs ! j) g =
          (if g \<in> ref_fields then without_id i (map_of (cards s ! j) g)
           else map_of (cards s ! j) g)" if "j < length (cards s)" for j g
    using strip_card_ok [OF each [OF that], of g] .
  with idx lt len s' show ?thesis by blast
qed

lemma demo_delete_run: "deleteCard ''card_3_c'' demo_store = (Inr True, demo_after_delete)"
  by (simp add: deleteCard_def demo_store_def demo_after_delete_def has_id_def strip_card_def
        strip_ref_def tavern_def market_def hero_def rival_def)


lemma find_None_iff_all: "List.find P xs = None \<longleftrightarrow> (\<forall>x\<in>set xs. \<not> P x)"
  by (induction xs) auto






text \<open>
  C10. A successful \<^verbatim>\<open>deleteCard\<close> removes the first card carrying the id and keeps the
  others in their order. In each of them the three reference lists lose the deleted id and
  nothing else; every other property, \<^verbatim>\<open>updatedAt\<close> included, reads as before. The
  navigation history is untouched.
\<close>

theorem deleteCard_frame:
  assumes "deleteCard i s = (Inr True, s')"
  shows "\<exists>index. findIndex (has_id i) (cards s) = Some index
         \<and> index < length (cards s)
         \<and> navigationHistory s' = navigationHistory s
         \<and> length (cards s') = length (cards s) - 1
         \<and> (\<forall>k<length (cards s').
               map_of (cards s' ! k) ''updatedAt'' =
               map_of (cards s ! (if k < index then k else Suc k)) ''updatedAt'')
         \<and> (\<forall>k<length (cards s'). \<forall>g.
               map_of (cards s' ! k) g =
                 (if g \<in> ref_fields
                  then without_id i (map_of (cards s ! (if k < index then k else Suc k)) g)
                  else map_of (cards s ! (if k < index then k else Suc k)) g))"
proof -
  from deleteCard_stripped [OF assms] obtain index cs where
    idx: "findIndex (has_id i) (cards s) = Some index" and
    lt: "index < length (cards s)" and
    len: "length cs = length (cards s)" and
    s': "s' = s\<lparr>cards := take index cs @ drop (Suc index) cs\<rparr>" and
    look: "\<And>j g. j < length (cards s) \<Longrightarrow>
               map_of (cs ! j) g =
                 (if g \<in> ref_fields then without_id i (map_of (cards s ! j) g)
                  else map_of (cards s ! j) g)"
    by blast
  have len': "length (cards s') = length (cards s) - 1"
    using lt len by (simp add: s' min_def)
  have frame: "map_of (cards s' ! k) g =
                 (if g \<in> ref_fields
                  then without_id i (map_of (cards s ! (if k < index then k else Suc k)) g)
                  else map_of (cards s ! (if k < index then k else Suc k)) g)"
    if k: "k < length (cards s')" for k g
  proof -
    let ?j = "if k < index then k else Suc k"
    have j: "?j < length (cards s)" using k len' lt by auto
    have "cards s' ! k = cs ! ?j"
      using k len' lt len nth_take_drop_Suc [of k cs index] by (simp add: s')
    then show ?thesis
      using look [OF j, of g] by simp
  qed
  have stamp: "map_of (cards s' ! k) ''updatedAt'' =
               map_of (cards s ! (if k < index then k else Suc k)) ''updatedAt''"
    if k: "k < length (cards s')" for k
    using frame [OF k, of "''updatedAt''"] by (simp add: ref_fields_def)
  show ?thesis
    using idx lt len' frame stamp by (intro exI [of _ index]) (simp add: s')
qed

theorem deleteCard_frame_witness:
  "deleteCard ''card_3_c'' demo_store = (Inr True, demo_after_delete)
   \<and> findIndex (has_id ''card_3_c'') (cards demo_store) = Some 2
   \<and> length (cards demo_after_delete) = 3
   \<and> map_of (cards demo_after_delete ! 2) ''updatedAt'' = map_of (cards demo_store ! 3) ''updatedAt''
   \<and> map_of (cards demo_after_delete ! 2) ''bonds''
        = without_id ''card_3_c'' (map_of (cards demo_store ! 3) ''bonds'')
   \<and> map_of (cards demo_after_delete ! 0) ''name'' = map_of (cards demo_store ! 0) ''name''"
proof -
  from deleteCard_frame [OF demo_delete_run] obtain index where
    idx: "findIndex (has_id ''card_3_c'') (cards demo_store) = Some index" and
    len: "length (cards demo_after_delete) = length (cards demo_store) - 1" and
    stamp: "\<And>k. k < length (cards demo_after_delete) \<Longrightarrow>
               map_of (cards demo_after_delete ! k) ''updatedAt'' =
               map_of (cards demo_store ! (if k < index then k else Suc k)) ''updatedAt''" and
    frame: "\<And>k g. k < length (cards demo_after_delete) \<Longrightarrow>
               map_of (cards demo_after_delete ! k) g =
                 (if g \<in> ref_fields
                  then without_id ''card_3_c'' (map_of (cards demo_store ! (if k < index then k else Suc k)) g)
                  else map_of (cards demo_store ! (if k < index then k else Suc k)) g)"
    by blast
  have "findIndex (has_id ''card_3_c'') (cards demo_store) = Some (Suc (Suc 0))"
    by (simp add: demo_store_def has_id_def tavern_def market_def hero_def)
  with idx have index: "index = Suc (Suc 0)" by simp
  have l3: "length (cards demo_after_delete) = 3"
    using len by (simp add: demo_store_def)
  have k2: "Suc (Suc 0) < length (cards demo_after_delete)"
    and k0: "0 < length (cards demo_after_delete)" using l3 by simp_all
  have n2: "(2::nat) = Suc (Suc 0)" and n3: "(3::nat) = Suc (Suc (Suc 0))" by simp_all
  have a: "map_of (cards demo_after_delete ! 2) ''updatedAt'' = map_of (cards demo_store ! 3) ''updatedAt''"
    unfolding n2 n3 using stamp [OF k2] by (simp add: index)
  have b: "map_of (cards demo_after_delete ! 2) ''bonds''
        = without_id ''card_3_c'' (map_of (cards demo_store ! 3) ''bonds'')"
    unfolding n2 n3 using frame [OF k2, of "''bonds''"] by (simp add: index ref_fields_def)
  have c: "map_of (cards demo_after_delete ! 0) ''name'' = map_of (cards demo_store ! 0) ''name''"
    using frame [OF k0, of "''name''"] by (simp add: index ref_fields_def)
  have i2: "findIndex (has_id ''card_3_c'') (cards demo_store) = Some 2"
    using idx index by (simp add: n2)
  from demo_delete_run i2 l3 a b c show ?thesis by blast
qed

section \<open>Import\<close>

lemma read_prop_not_null: "c \<noteq> JNull \<Longrightarrow> \<exists>v. read_prop c k = Inr v"
  by (cases c) (simp_all add: read_prop_def)

lemma keyedD:
  assumes "keyed c"
  shows "\<exists>v. read_prop c ''id'' = Inr v \<and> property_key v = Inr (incoming_key c)"
  using assms by (auto simp: keyed_def incoming_key_def split: sum.splits)

lemma keyed_not_null: "keyed c \<Longrightarrow> c \<noteq> JNull"
  by (auto simp: keyed_def read_prop_def)




lemma remap_id_converts: "converts x \<Longrightarrow> remap_id m x = Inr (remap_entry m x)"
  by (auto simp: converts_def remap_entry_def remap_id_def split: sum.splits option.splits)

lemma mapE_remap:
  "list_all converts xs \<Longrightarrow> mapE (remap_id m) xs = Inr (map (remap_entry m) xs)"
  by (induction xs) (simp_all add: remap_id_converts)

lemma mapE_Inr:
  "mapE f xs = Inr ys \<Longrightarrow> ys = map (\<lambda>x. case f x of Inr y \<Rightarrow> y | Inl e \<Rightarrow> x) xs"
  by (induction xs arbitrary: ys) (auto split: sum.splits)

lemma remap_ref_ok:
  assumes "remap_ref m f nc = Inr nc'"
  shows "map_of nc' g = (if g = f then remapped m (map_of nc f) else map_of nc g)"
proof (cases "truthy (map_of nc f)")
  case False
  then have "nc' = nc" using assms by (simp add: remap_ref_def)
  moreover have "remapped m (map_of nc f) = map_of nc f"
    using False by (auto simp: remapped_def split: option.splits jsval.splits)
  ultimately show ?thesis by simp
next
  case True
  with assms obtain xs ys where xs: "map_of nc f = Some (JArr xs)"
    and ys: "mapE (remap_id m) xs = Inr ys"
    and nc': "nc' = AList.update f (JArr (filter (\<lambda>x. truthy (Some x)) ys)) nc"
    by (auto simp: remap_ref_def split: option.splits jsval.splits sum.splits)
  from mapE_Inr [OF ys] have "ys = map (remap_entry m) xs"
    by (simp add: remap_entry_def [abs_def])
  then show ?thesis
    by (simp add: nc' xs map_of_update remapped_def)
qed

lemma remap_ref_total:
  assumes "\<not> truthy (map_of nc f) \<or> (\<exists>xs. map_of nc f = Some (JArr xs) \<and> list_all converts xs)"
  shows "\<exists>nc'. remap_ref m f nc = Inr nc'"
  using assms by (auto simp: remap_ref_def mapE_remap)

lemma map_of_delete: "map_of (AList.delete k al) k' = (if k' = k then None else map_of al k')"
  by (simp add: delete_conv')

lemma import_card_ok:
  assumes "importable c"
  shows "\<exists>nc. import_card m ts c = Inr nc
          \<and> (\<forall>g. map_of nc g =
                (if g = ''updatedAt'' then Some (JStr (snd ts))
                 else if g = ''createdAt'' then Some (JStr (fst ts))
                 else if g = ''id'' then get_mapping m (incoming_key c)
                 else if g \<in> ref_fields then remapped m (map_of (own_props c) g)
                 else map_of (own_props c) g))"
proof -
  from assms have kc: "keyed c"
    and wf: "\<And>f. f \<in> ref_fields \<Longrightarrow>
               \<not> truthy (map_of (own_props c) f)
               \<or> (\<exists>xs. map_of (own_props c) f = Some (JArr xs) \<and> list_all converts xs)"
    by (auto simp: importable_def)
  from keyedD [OF kc] obtain v where v: "read_prop c ''id'' = Inr v"
    and key: "property_key v = Inr (incoming_key c)" by blast
  define nc1 where "nc1 = (case get_mapping m (incoming_key c) of
                            Some w \<Rightarrow> AList.update ''id'' w (own_props c)
                          | None \<Rightarrow> AList.delete ''id'' (own_props c))"
  have l1: "map_of nc1 g = (if g = ''id'' then get_mapping m (incoming_key c)
                            else map_of (own_props c) g)" for g
    by (simp add: nc1_def map_of_update map_of_delete split: option.splits)
  have "\<not> truthy (map_of nc1 ''adjacentLocations'')
        \<or> (\<exists>xs. map_of nc1 ''adjacentLocations'' = Some (JArr xs) \<and> list_all converts xs)"
    using wf [of "''adjacentLocations''"] by (simp add: l1 ref_fields_def)
  from remap_ref_total [OF this] obtain nc2 where
    r2: "remap_ref m ''adjacentLocations'' nc1 = Inr nc2" by blast
  note l2 = remap_ref_ok [OF r2]
  have "\<not> truthy (map_of nc2 ''presentCharacters'')
        \<or> (\<exists>xs. map_of nc2 ''presentCharacters'' = Some (JArr xs) \<and> list_all converts xs)"
    using wf [of "''presentCharacters''"] by (simp add: l2 l1 ref_fields_def)
  from remap_ref_total [OF this] obtain nc3 where
    r3: "remap_ref m ''presentCharacters'' nc2 = Inr nc3" by blast
  note l3 = remap_ref_ok [OF r3]
  have "\<not> truthy (map_of nc3 ''bonds'')
        \<or> (\<exists>xs. map_of nc3 ''bonds'' = Some (JArr xs) \<and> list_all converts xs)"
    using wf [of "''bonds''"] by (simp add: l3 l2 l1 ref_fields_def)
  from remap_ref_total [OF this] obtain nc4 where
    r4: "remap_ref m ''bonds'' nc3 = Inr nc4" by blast
  note l4 = remap_ref_ok [OF r4]
  let ?nc = "AList.update ''updatedAt'' (JStr (snd ts)) (AList.update ''createdAt'' (JStr (fst ts)) nc4)"
  have run: "import_card m ts c = Inr ?nc"
    using v key r2 r3 r4 by (simp add: import_card_def nc1_def Let_def)
  have look: "map_of ?nc g =
                (if g = ''updatedAt'' then Some (JStr (snd ts))
                 else if g = ''createdAt'' then Some (JStr (fst ts))
                 else if g = ''id'' then get_mapping m (incoming_key c)
                 else if g \<in> ref_fields then remapped m (map_of (own_props c) g)
                 else map_of (own_props c) g)" for g
    by (simp add: map_of_update l4 l3 l2 l1 ref_fields_def)
  from run look show ?thesis by blast
qed


subsection \<open>The list after the import\<close>






lemma demo_ids:
  "nth_id demo_gen 0 = ''card_42_r0''" "nth_id demo_gen (Suc 0) = ''card_42_r1''"
  "nth_id stuck_gen k = ''card_1700000000000_k3f9x2m7q''"
  by (simp_all add: nth_id_def demo_gen_def stuck_gen_def generateId_def dec.simps)

lemmas import_eval =
  importCards_def import_try_def import_card_def remap_ref_def remap_id_def property_key_def
  read_prop_def own_props_def get_mapping_def set_mapping_def object_prototype_names_def
  render_imported_def renderCardsList_def renderCarousels_def updateWelcomeScreen_def
  getAllCards_def demo_ui_def stable_sort_def compare_cards_def type_rank_def
  no_markup_error_def char_code_def Let_def

text \<open>
  C4. When the file's text does not parse, or the parsed value has no \<^verbatim>\<open>cards\<close> property
  that is an array (also when reading the property throws), \<^verbatim>\<open>importCards\<close> leaves the
  store exactly as it was and shows the one error toast.
\<close>

theorem importCards_malformed:
  assumes "parsed = None
         \<or> (\<exists>data. parsed = Some data \<and> (\<forall>incoming. read_prop data ''cards'' \<noteq> Inr (Some (JArr incoming))))"
  shows "importCards gen clock ui (Loaded parsed) s = ([ImportInvalidFile], s)"
proof -
  have "\<exists>e. import_try gen clock ui parsed s = (Inl e, s)"
  proof (cases parsed)
    case None
    then show ?thesis by (simp add: import_try_def)
  next
    case (Some data)
    with assms have no: "\<And>incoming. read_prop data ''cards'' \<noteq> Inr (Some (JArr incoming))"
      by simp
    show ?thesis
    proof (cases "read_prop data ''cards''")
      case (Inl e)
      with Some show ?thesis by (simp add: import_try_def)
    next
      case (Inr v)
      with no have "\<And>incoming. v \<noteq> Some (JArr incoming)" by simp
      with Some Inr show ?thesis
        by (auto simp: import_try_def split: option.splits jsval.splits)
    qed
  qed
  then show ?thesis by (auto simp: importCards_def)
qed

theorem importCards_malformed_witness:
  "importCards demo_gen demo_clock demo_ui (Loaded (Some (JObj []))) demo_store
      = ([ImportInvalidFile], demo_store)
 \<and> importCards demo_gen demo_clock demo_ui
      (Loaded (Some (JObj [(''cards'', JStr ''not-an-array'')]))) demo_store
      = ([ImportInvalidFile], demo_store)
 \<and> importCards demo_gen demo_clock demo_ui (Loaded None) demo_store = ([ImportInvalidFile], demo_store)
 \<and> importCards demo_gen demo_clock demo_ui (Loaded (Some JNull)) demo_store
      = ([ImportInvalidFile], demo_store)"
proof -
  have a: "Some (JObj []) = None \<or> (\<exists>data. Some (JObj []) = Some data
            \<and> (\<forall>incoming. read_prop data ''cards'' \<noteq> Inr (Some (JArr incoming))))"
    by (simp add: read_prop_def)
  have b: "Some (JObj [(''cards'', JStr ''not-an-array'')]) = None
         \<or> (\<exists>data. Some (JObj [(''cards'', JStr ''not-an-array'')]) = Some data
            \<and> (\<forall>incoming. read_prop data ''cards'' \<noteq> Inr (Some (JArr incoming))))"
    by (simp add: read_prop_def)
  have c: "(None :: jsval option) = None
         \<or> (\<exists>data. None = Some data
            \<and> (\<forall>incoming. read_prop data ''cards'' \<noteq> Inr (Some (JArr incoming))))"
    by simp
  have d: "Some JNull = None \<or> (\<exists>data. Some JNull = Some data
            \<and> (\<forall>incoming. read_prop data ''cards'' \<noteq> Inr (Some (JArr incoming))))"
    by (simp add: read_prop_def)
  show ?thesis
    using importCards_malformed [OF a, of demo_gen demo_clock demo_ui demo_store]
      importCards_malformed [OF b, of demo_gen demo_clock demo_ui demo_store]
      importCards_malformed [OF c, of demo_gen demo_clock demo_ui demo_store]
      importCards_malformed [OF d, of demo_gen demo_clock demo_ui demo_store]
    by blast
qed




subsection \<open>The sort of the examples\<close>

















section \<open>Export and import: the round trip\<close>

























section \<open>Further properties of the repository and the import\<close>

text \<open>
  \<^verbatim>\<open>updateCard\<close> with an id no card carries returns \<^verbatim>\<open>null\<close> and leaves the store as it is.
\<close>

theorem updateCard_unknown_id:
  "\<forall>c\<in>set (cards s). \<not> has_id i c \<Longrightarrow> updateCard i now cardData s = (None, s)"
  by (simp add: updateCard_def findIndex_None [THEN iffD2])

text \<open>
  \<^verbatim>\<open>deleteCard\<close> with an id no card carries returns \<^verbatim>\<open>false\<close> and leaves the store as it is.
\<close>

theorem deleteCard_unknown_id:
  "\<forall>c\<in>set (cards s). \<not> has_id i c \<Longrightarrow> deleteCard i s = (Inr False, s)"
  by (simp add: deleteCard_def findIndex_None [THEN iffD2])

theorem updateCard_unknown_id_witness:
  "updateCard ''card_0_q'' ''T9'' [(''name'', JStr ''Ghost'')] demo_store = (None, demo_store)"
proof -
  have h: "\<forall>c\<in>set (cards demo_store). \<not> has_id ''card_0_q'' c"
    by (simp add: demo_store_def has_id_def tavern_def market_def hero_def rival_def)
  then show ?thesis by (rule updateCard_unknown_id)
qed

theorem deleteCard_unknown_id_witness:
  "deleteCard ''card_0_q'' demo_store = (Inr False, demo_store)"
proof -
  have h: "\<forall>c\<in>set (cards demo_store). \<not> has_id ''card_0_q'' c"
    by (simp add: demo_store_def has_id_def tavern_def market_def hero_def rival_def)
  then show ?thesis by (rule deleteCard_unknown_id)
qed

text \<open>
  \<^verbatim>\<open>exportCards\<close> on an empty collection produces no document and shows the error toast.
\<close>

theorem exportCards_empty:
  "cards s = [] \<Longrightarrow> exportCards t s = (None, [NoCardsToExport])"
  by (simp add: exportCards_def getAllCards_def Let_def)

theorem exportCards_empty_witness:
  "cards new_DataStore = [] \<and> exportCards ''T7'' new_DataStore = (None, [NoCardsToExport])"
proof -
  have e: "cards new_DataStore = []" by (simp add: new_DataStore_def)
  from exportCards_empty [OF e, of "''T7''"] e show ?thesis by simp
qed

lemma find_append_cases:
  "List.find P (xs @ ys) = (case List.find P xs of Some x \<Rightarrow> Some x | None \<Rightarrow> List.find P ys)"
  by (induction xs) auto

text \<open>
  Create, then read: when \<^verbatim>\<open>cardData\<close> has no \<^verbatim>\<open>id\<close> and no existing card carries the
  generated id, \<^verbatim>\<open>getCard\<close> of that id returns the card \<^verbatim>\<open>createCard\<close> returned.
\<close>

theorem createCard_then_getCard:
  assumes "distinct (map fst cardData)" and "map_of cardData ''id'' = None"
    and "\<forall>c\<in>set (cards s). \<not> has_id (generateId now suffix) c"
  shows "getCard (generateId now suffix) (snd (createCard now suffix t1 t2 cardData s))
           = Some (fst (createCard now suffix t1 t2 cardData s))"
proof -
  let ?new = "fst (createCard now suffix t1 t2 cardData s)"
  have cs: "cards (snd (createCard now suffix t1 t2 cardData s)) = cards s @ [?new]"
    by (simp add: createCard_def Let_def)
  have "has_id (generateId now suffix) ?new"
    using assms(2) by (simp add: createCard_def Let_def has_id_def map_of_spread [OF assms(1)])
  moreover have "List.find (has_id (generateId now suffix)) (cards s) = None"
    using assms(3) by (simp add: find_None_iff_all)
  ultimately show ?thesis
    by (simp add: getCard_def cs find_append_cases)
qed

theorem createCard_then_getCard_witness:
  "getCard ''card_42_r7'' (snd (createCard 42 ''r7'' ''T5'' ''T5'' [(''name'', JStr ''Feast'')] demo_store))
     = Some [(''id'', JStr ''card_42_r7''), (''createdAt'', JStr ''T5''), (''updatedAt'', JStr ''T5''),
             (''name'', JStr ''Feast'')]"
proof -
  have g: "generateId 42 ''r7'' = ''card_42_r7''"
    by (simp add: generateId_def dec.simps)
  have d: "distinct (map fst [(''name'', JStr ''Feast'')])" by simp
  have n: "map_of [(''name'', JStr ''Feast'')] ''id'' = None" by simp
  have f: "\<forall>c\<in>set (cards demo_store). \<not> has_id (generateId 42 ''r7'') c"
    by (simp add: g demo_store_def has_id_def tavern_def market_def hero_def rival_def)
  have c: "fst (createCard 42 ''r7'' ''T5'' ''T5'' [(''name'', JStr ''Feast'')] demo_store)
         = [(''id'', JStr ''card_42_r7''), (''createdAt'', JStr ''T5''), (''updatedAt'', JStr ''T5''),
             (''name'', JStr ''Feast'')]"
    by (simp add: createCard_def g spread_def Let_def)
  from createCard_then_getCard [OF d n f, of "''T5''" "''T5''"] show ?thesis
    unfolding g c .
qed

lemma first_pass_total:
  "\<forall>c\<in>set cs. keyed c \<Longrightarrow> \<exists>m'. first_pass gen k cs m = Inr m'"
proof (induction cs arbitrary: k m)
  case Nil
  then show ?case by simp
next
  case (Cons c cs)
  from Cons.prems have "keyed c" by simp
  from keyedD [OF this] obtain v where v: "read_prop c ''id'' = Inr v"
    "property_key v = Inr (incoming_key c)" by blast
  from Cons.IH [of "Suc k" "set_mapping (incoming_key c) (nth_id gen k) m"] Cons.prems
  show ?case by (simp add: v)
qed

lemma to_string_error:
  "to_string x = Inl e \<Longrightarrow> e = TypeError"
  "join_strings xs = Inl e \<Longrightarrow> e = TypeError"
  by (induction x and xs rule: to_string_join_strings.induct)
     (auto split: sum.splits option.splits if_splits)

lemma remap_id_error: "remap_id m x = Inl e \<Longrightarrow> e = TypeError"
  by (auto simp: remap_id_def split: sum.splits option.splits dest: to_string_error(1))

lemma mapE_error: "mapE f xs = Inl e \<Longrightarrow> \<exists>x\<in>set xs. f x = Inl e"
  by (induction xs) (auto split: sum.splits)

lemma remap_ref_error: "remap_ref m f nc = Inl e \<Longrightarrow> e = TypeError"
  by (auto simp: remap_ref_def split: if_splits option.splits jsval.splits sum.splits
           dest!: mapE_error dest: remap_id_error)

lemma remap_ref_fails:
  "truthy (map_of nc f) \<Longrightarrow> \<forall>xs. map_of nc f \<noteq> Some (JArr xs) \<Longrightarrow> remap_ref m f nc = Inl TypeError"
  by (auto simp: remap_ref_def split: option.splits jsval.splits)

lemma import_card_fails:
  assumes "bad_refs c"
  shows "import_card m ts c = Inl TypeError"
proof -
  from assms have kc: "keyed c" by (simp add: bad_refs_def)
  from assms obtain f where f: "f \<in> ref_fields" "truthy (map_of (own_props c) f)"
    "\<forall>xs. map_of (own_props c) f \<noteq> Some (JArr xs)"
    by (auto simp: bad_refs_def)
  from keyedD [OF kc] obtain v where v: "read_prop c ''id'' = Inr v"
    and key: "property_key v = Inr (incoming_key c)" by blast
  define nc1 where "nc1 = (case get_mapping m (incoming_key c) of
                            Some w \<Rightarrow> AList.update ''id'' w (own_props c)
                          | None \<Rightarrow> AList.delete ''id'' (own_props c))"
  have l1: "map_of nc1 g = map_of (own_props c) g" if "g \<in> ref_fields" for g
    using that by (auto simp: nc1_def ref_fields_def map_of_update map_of_delete split: option.splits)
  have run: "import_card m ts c =
     (case remap_ref m ''adjacentLocations'' nc1 of
        Inl e \<Rightarrow> Inl e
      | Inr nc2 \<Rightarrow>
          (case remap_ref m ''presentCharacters'' nc2 of
             Inl e \<Rightarrow> Inl e
           | Inr nc3 \<Rightarrow>
               (case remap_ref m ''bonds'' nc3 of
                  Inl e \<Rightarrow> Inl e
                | Inr nc4 \<Rightarrow>
                    Inr (AList.update ''updatedAt'' (JStr (snd ts))
                          (AList.update ''createdAt'' (JStr (fst ts)) nc4)))))"
    by (simp add: import_card_def v key nc1_def Let_def)
  show ?thesis
  proof (cases "remap_ref m ''adjacentLocations'' nc1")
    case (Inl e)
    with remap_ref_error [OF Inl] run show ?thesis by simp
  next
    case r2: (Inr nc2)
    note l2 = remap_ref_ok [OF r2]
    have fa: "f \<noteq> ''adjacentLocations''"
    proof
      assume "f = ''adjacentLocations''"
      with f l1 [OF f(1)] have "remap_ref m ''adjacentLocations'' nc1 = Inl TypeError"
        by (intro remap_ref_fails) simp_all
      with r2 show False by simp
    qed
    show ?thesis
    proof (cases "remap_ref m ''presentCharacters'' nc2")
      case (Inl e)
      with remap_ref_error [OF Inl] run r2 show ?thesis by simp
    next
      case r3: (Inr nc3)
      note l3 = remap_ref_ok [OF r3]
      have fp: "f \<noteq> ''presentCharacters''"
      proof
        assume "f = ''presentCharacters''"
        with f l1 [OF f(1)] have "remap_ref m ''presentCharacters'' nc2 = Inl TypeError"
          by (intro remap_ref_fails) (simp_all add: l2)
        with r3 show False by simp
      qed
      from f(1) fa fp have fb: "f = ''bonds''" by (simp add: ref_fields_def)
      with f l1 [OF f(1)] have "remap_ref m ''bonds'' nc3 = Inl TypeError"
        by (intro remap_ref_fails) (simp_all add: l3 l2)
      with run r2 r3 show ?thesis by simp
    qed
  qed
qed

lemma second_pass_prefix:
  assumes "\<forall>c\<in>set good. importable c"
  shows "\<exists>new. length new = length good
             \<and> second_pass m clock k0 (good @ tail) acc
                 = second_pass m clock (k0 + length good) tail (acc @ new)"
  using assms
proof (induction good arbitrary: k0 acc)
  case Nil
  then show ?case by simp
next
  case (Cons c good)
  from Cons.prems have c: "importable c" and rest: "\<forall>c\<in>set good. importable c" by simp_all
  from import_card_ok [OF c, of m "clock k0"] obtain nc where
    nc: "import_card m (clock k0) c = Inr nc" by blast
  from Cons.IH [OF rest, of "Suc k0" "acc @ [nc]"] obtain new where
    len: "length new = length good" and
    run: "second_pass m clock (Suc k0) (good @ tail) (acc @ [nc])
            = second_pass m clock (Suc k0 + length good) tail ((acc @ [nc]) @ new)"
    by blast
  have "second_pass m clock k0 ((c # good) @ tail) acc
          = second_pass m clock (k0 + length (c # good)) tail (acc @ (nc # new))"
    using nc run by simp
  with len show ?case by (intro exI [of _ "nc # new"]) simp
qed

text \<open>
  An import is not all-or-nothing once the \<^verbatim>\<open>cards\<close> array is accepted: when the second
  pass throws on an incoming card (a reference list that is truthy and not an array), the
  error toast is shown and the cards before it stay appended to the collection, in the
  order of the file: the list is not rendered, so nothing sorts them.
\<close>

theorem importCards_partial:
  assumes cards: "read_prop data ''cards'' = Inr (Some (JArr (good @ bad # rest)))"
    and good: "\<forall>c\<in>set good. importable c"
    and bad: "bad_refs bad"
    and rest: "\<forall>c\<in>set rest. keyed c"
  shows "\<exists>new. length new = length good
             \<and> importCards gen clock ui (Loaded (Some data)) s
                 = ([ImportInvalidFile], s\<lparr>cards := cards s @ new\<rparr>)"
proof -
  have "\<forall>c\<in>set (good @ bad # rest). keyed c"
    using good bad rest by (auto simp: importable_def bad_refs_def)
  from first_pass_total [OF this, of gen 0 "[]"] obtain m where
    fp: "first_pass gen 0 (good @ bad # rest) [] = Inr m" by blast
  from second_pass_prefix [OF good, of m clock 0 "bad # rest" "cards s"] obtain new where
    len: "length new = length good" and
    sp: "second_pass m clock 0 (good @ bad # rest) (cards s)
           = second_pass m clock (length good) (bad # rest) (cards s @ new)"
    by auto
  have "second_pass m clock (length good) (bad # rest) (cards s @ new) = (Some TypeError, cards s @ new)"
    by (simp add: import_card_fails [OF bad])
  with sp have "import_try gen clock ui (Some data) s = (Inl TypeError, s\<lparr>cards := cards s @ new\<rparr>)"
    by (simp add: import_try_def cards fp)
  then have "importCards gen clock ui (Loaded (Some data)) s
                 = ([ImportInvalidFile], s\<lparr>cards := cards s @ new\<rparr>)"
    by (simp add: importCards_def)
  with len show ?thesis by blast
qed

theorem importCards_partial_witness:
  "importCards demo_gen demo_clock demo_ui (Loaded (Some broken_doc)) new_DataStore
     = ([ImportInvalidFile], \<lparr>cards = [inn_copy], navigationHistory = []\<rparr>)"
proof -
  let ?bad = "JObj [(''id'', JStr ''card_6_y''), (''name'', JStr ''Guard''),
                    (''bonds'', JStr ''card_5_x'')]"
  have c: "read_prop broken_doc ''cards'' = Inr (Some (JArr ([JObj inn] @ ?bad # [])))"
    by (simp add: read_prop_def broken_doc_def)
  have g: "\<forall>c\<in>set [JObj inn]. importable c"
    by (simp add: importable_def keyed_def read_prop_def property_key_def converts_def
          own_props_def ref_fields_def inn_def)
  have b: "bad_refs ?bad"
    by (simp add: bad_refs_def keyed_def read_prop_def property_key_def own_props_def ref_fields_def)
  have r: "\<forall>c\<in>set []. keyed c" by simp
  from importCards_partial [OF c g b r, of demo_gen demo_clock demo_ui new_DataStore] obtain new where
    "importCards demo_gen demo_clock demo_ui (Loaded (Some broken_doc)) new_DataStore
       = ([ImportInvalidFile], new_DataStore\<lparr>cards := cards new_DataStore @ new\<rparr>)"
    by blast
  moreover have "importCards demo_gen demo_clock demo_ui (Loaded (Some broken_doc)) new_DataStore
     = ([ImportInvalidFile], \<lparr>cards = [inn_copy], navigationHistory = []\<rparr>)"
    by (simp add: import_eval demo_ids broken_doc_def inn_def inn_copy_def new_DataStore_def
          demo_clock_def)
  ultimately show ?thesis by simp
qed

lemma small_cases:
  "d < 10 \<Longrightarrow> d = 0 \<or> d = 1 \<or> d = 2 \<or> d = 3 \<or> d = 4 \<or> d = 5 \<or> d = 6 \<or> d = 7 \<or> d = 8 \<or> d = (9::nat)"
  by arith

lemma digit_val_nth: "d < 10 \<Longrightarrow> digit_val (''0123456789'' ! d) = d"
  by (drule small_cases) (elim disjE; simp add: digit_val_def)

lemma digit_is_digit: "d < 10 \<Longrightarrow> ''0123456789'' ! d \<noteq> CHR ''_''"
  by (drule small_cases) (elim disjE; simp)

lemma undec_dec: "undec (dec n) = n"
proof (induction n rule: dec.induct)
  case (1 n)
  show ?case
  proof (cases "n < 10")
    case True
    then show ?thesis
      by (subst dec.simps) (simp add: undec_def digit_val_nth)
  next
    case False
    have m: "n mod 10 < 10" by simp
    from False "1.IH" have ih: "undec (dec (n div 10)) = n div 10" by simp
    have "undec (dec n) = 10 * undec (dec (n div 10)) + digit_val (''0123456789'' ! (n mod 10))"
      using False by (subst dec.simps) (simp add: undec_def)
    also have "\<dots> = 10 * (n div 10) + n mod 10"
      by (simp only: ih digit_val_nth [OF m])
    finally show ?thesis by simp
  qed
qed

lemma dec_inj: "dec n = dec m \<Longrightarrow> n = m"
  by (metis undec_dec)

lemma dec_no_underscore: "CHR ''_'' \<notin> set (dec n)"
proof (induction n rule: dec.induct)
  case (1 n)
  show ?case
  proof (cases "n < 10")
    case True
    then show ?thesis
      using digit_is_digit [of n] by (subst dec.simps) auto
  next
    case False
    have m: "n mod 10 < 10" by simp
    from False "1.IH" have "CHR ''_'' \<notin> set (dec (n div 10))" by simp
    then show ?thesis
      using False digit_is_digit [OF m] by (subst dec.simps) auto
  qed
qed

lemma split_at_first:
  "xs @ c # ys = xs' @ c # ys' \<Longrightarrow> c \<notin> set xs \<Longrightarrow> c \<notin> set xs' \<Longrightarrow> xs = xs' \<and> ys = ys'"
proof (induction xs arbitrary: xs')
  case Nil
  then show ?case by (cases xs') auto
next
  case (Cons x xs)
  then show ?case by (cases xs') auto
qed

text \<open>
  \<^verbatim>\<open>generateId\<close> returns the same id twice exactly when both the clock reading and the
  random suffix repeat.
\<close>

theorem generateId_inj:
  "generateId now suffix = generateId now' suffix' \<longleftrightarrow> now = now' \<and> suffix = suffix'"
proof
  assume "generateId now suffix = generateId now' suffix'"
  then have "dec now @ CHR ''_'' # suffix = dec now' @ CHR ''_'' # suffix'"
    by (simp add: generateId_def)
  from split_at_first [OF this dec_no_underscore dec_no_underscore]
  show "now = now' \<and> suffix = suffix'" by (auto dest: dec_inj)
next
  assume "now = now' \<and> suffix = suffix'"
  then show "generateId now suffix = generateId now' suffix'" by simp
qed

end
